theory Spec2Isabelle
  imports Main "HOL-Library.Word"
begin

unbundle bit_operations_syntax

section \<open>Self-hosted authentication of the Go backend: a shallow embedding\<close>

text \<open>
  The development follows the package \<^verbatim>\<open>internal/modules/auth/adapters/local\<close>
  (\<^verbatim>\<open>password.go\<close>, \<^verbatim>\<open>jwt.go\<close>, \<^verbatim>\<open>adapter.go\<close>, \<^verbatim>\<open>config.go\<close>), the user domain
  (\<^verbatim>\<open>entity.go\<close>, \<^verbatim>\<open>errors.go\<close>), the two repositories and the SQL queries they run.

  Go strings are byte sequences and so are HOL strings. A \<^verbatim>\<open>time.Time\<close> is an integer
  number of nanoseconds, a \<^verbatim>\<open>time.Duration\<close> likewise. Functions of third-party and
  standard libraries whose results cannot be computed here (Argon2id, RSA signatures,
  SHA-256, the Unicode tables) are fields of the record \<open>Lib\<close>; the text functions
  the password encoding rests on (\<^verbatim>\<open>strings.Split\<close>, \<^verbatim>\<open>fmt.Sscanf\<close>, \<^verbatim>\<open>fmt.Sprintf\<close>,
  raw standard base64, hexadecimal) are written out.
\<close>

type_synonym byte = "8 word"
type_synonym time = int
type_synonym duration = int

subsection \<open>Errors\<close>

text \<open>
  The sentinel values of \<^verbatim>\<open>domain/errors.go\<close> and of \<^verbatim>\<open>jwt.go\<close> (the package
  \<^verbatim>\<open>local\<close> declares its own \<^verbatim>\<open>ErrInvalidToken\<close> and \<^verbatim>\<open>ErrTokenExpired\<close>), the errors
  made with \<^verbatim>\<open>errors.New\<close> and \<^verbatim>\<open>fmt.Errorf\<close>, and the errors of the database driver.
\<close>

datatype error =
    ErrUserNotFound
  | ErrUserAlreadyExists
  | ErrInvalidCredentials
  | ErrAccountLocked
  | ErrAccountInactive
  | DomainErrInvalidToken
  | DomainErrTokenExpired
  | ErrEmailNotVerified
  | ErrInvalidToken
  | ErrTokenExpired
  | ErrNew string
  | ErrWrap string error
  | ErrScan
  | ErrCorruptInput
  | ErrRand
  | ErrSign
  | ErrDatabase

subsection \<open>Text functions of the standard library\<close>

text \<open>\<^verbatim>\<open>strings.Split(s, "$")\<close>: the pieces between the separators, at least one piece.\<close>

fun split_on :: "char \<Rightarrow> string \<Rightarrow> string list" where
  "split_on sep [] = [[]]"
| "split_on sep (c # cs) =
     (if c = sep then [] # split_on sep cs
      else (case split_on sep cs of
              [] \<Rightarrow> [[c]]
            | p # ps \<Rightarrow> (c # p) # ps))"

text \<open>Decimal digits, as \<^verbatim>\<open>%d\<close> prints and reads them.\<close>

definition digit_char :: "nat \<Rightarrow> char" where
  "digit_char d = char_of (48 + d)"

definition is_digit :: "char \<Rightarrow> bool" where
  "is_digit c = (48 \<le> (of_char c :: nat) \<and> (of_char c :: nat) \<le> 57)"

definition digit_val :: "char \<Rightarrow> nat" where
  "digit_val c = of_char c - 48"

function show_nat :: "nat \<Rightarrow> string" where
  "show_nat n = (if n < 10 then [digit_char n] else show_nat (n div 10) @ [digit_char (n mod 10)])"
  by pat_completeness auto
termination
  by (relation "measure id") auto

declare show_nat.simps [simp del]

definition show_int :: "int \<Rightarrow> string" where
  "show_int i = (if i < 0 then CHR ''-'' # show_nat (nat (- i)) else show_nat (nat i))"

definition read_nat :: "string \<Rightarrow> nat" where
  "read_nat ds = foldl (\<lambda>acc c. 10 * acc + digit_val c) 0 ds"

text \<open>
  The scanner of \<^verbatim>\<open>fmt.Sscanf\<close>. Before a number it skips white space (the ranges of
  \<^verbatim>\<open>fmt\<close>'s table \<^verbatim>\<open>space\<close>, here in their UTF-8 encodings) and fails at a newline; a
  literal of the format must be the next input; what follows the last verb is not read.
\<close>

fun SkipSpace :: "string \<Rightarrow> string option" where
  "SkipSpace [] = Some []"
| "SkipSpace (c # cs) =
     (let n = (of_char c :: nat) in
      if n = 10 then None
      else if n = 9 \<or> n = 11 \<or> n = 12 \<or> n = 13 \<or> n = 32 then SkipSpace cs
      else if n = 194 then
        (case cs of
           d # ds \<Rightarrow> if (of_char d :: nat) = 133 \<or> (of_char d :: nat) = 160 then SkipSpace ds
                     else Some (c # cs)
         | [] \<Rightarrow> Some (c # cs))
      else if n = 225 \<or> n = 226 \<or> n = 227 then
        (case cs of
           d # e # es \<Rightarrow>
             (let m = (of_char d :: nat); k = (of_char e :: nat) in
              if (n = 225 \<and> m = 154 \<and> k = 128)
                 \<or> (n = 226 \<and> m = 128 \<and> ((128 \<le> k \<and> k \<le> 138) \<or> k = 168 \<or> k = 169 \<or> k = 175))
                 \<or> (n = 226 \<and> m = 129 \<and> k = 159)
                 \<or> (n = 227 \<and> m = 128 \<and> k = 128)
              then SkipSpace es else Some (c # cs))
         | _ \<Rightarrow> Some (c # cs))
      else Some (c # cs))"

definition scanNumber :: "string \<Rightarrow> (string \<times> string) option" where
  "scanNumber s =
     (let tok = takeWhile is_digit s in
      if tok = [] then None else Some (tok, dropWhile is_digit s))"

definition scanUint :: "nat \<Rightarrow> string \<Rightarrow> (nat \<times> string) option" where
  "scanUint bitSize s =
     (case SkipSpace s of
        None \<Rightarrow> None
      | Some s1 \<Rightarrow>
          (case scanNumber s1 of
             None \<Rightarrow> None
           | Some (tok, rest) \<Rightarrow>
               if read_nat tok < 2 ^ bitSize then Some (read_nat tok, rest) else None))"

definition scanInt :: "nat \<Rightarrow> string \<Rightarrow> (int \<times> string) option" where
  "scanInt bitSize s =
     (case SkipSpace s of
        None \<Rightarrow> None
      | Some s1 \<Rightarrow>
          (let (neg, s2) =
                 (case s1 of
                    c # cs \<Rightarrow> if c = CHR ''-'' then (True, cs)
                              else if c = CHR ''+'' then (False, cs) else (False, s1)
                  | [] \<Rightarrow> (False, s1))
           in case scanNumber s2 of
                None \<Rightarrow> None
              | Some (tok, rest) \<Rightarrow>
                  (let v = (if neg then - int (read_nat tok) else int (read_nat tok)) in
                   if - (2 ^ (bitSize - 1)) \<le> v \<and> v < 2 ^ (bitSize - 1) then Some (v, rest)
                   else None)))"

fun literal :: "string \<Rightarrow> string \<Rightarrow> string option" where
  "literal [] s = Some s"
| "literal (f # fs) [] = None"
| "literal (f # fs) (c # cs) = (if f = c then literal fs cs else None)"

text \<open>\<^verbatim>\<open>fmt.Sscanf(s, "v=%d", &version)\<close> with \<^verbatim>\<open>version\<close> an \<^verbatim>\<open>int\<close> of 64 bits.\<close>

definition Sscanf_version :: "string \<Rightarrow> int option" where
  "Sscanf_version s =
     (case literal ''v='' s of
        None \<Rightarrow> None
      | Some s1 \<Rightarrow> map_option fst (scanInt 64 s1))"

text \<open>
  \<^verbatim>\<open>fmt.Sscanf(s, "m=%d,t=%d,p=%d", &memory, &iterations, &parallelism)\<close> with targets
  of type \<^verbatim>\<open>uint32\<close>, \<^verbatim>\<open>uint32\<close> and \<^verbatim>\<open>uint8\<close>.
\<close>

definition Sscanf_params :: "string \<Rightarrow> (nat \<times> nat \<times> nat) option" where
  "Sscanf_params s =
     (case literal ''m='' s of
        None \<Rightarrow> None
      | Some s1 \<Rightarrow>
     (case scanUint 32 s1 of
        None \<Rightarrow> None
      | Some (m, s2) \<Rightarrow>
     (case literal '',t='' s2 of
        None \<Rightarrow> None
      | Some s3 \<Rightarrow>
     (case scanUint 32 s3 of
        None \<Rightarrow> None
      | Some (t, s4) \<Rightarrow>
     (case literal '',p='' s4 of
        None \<Rightarrow> None
      | Some s5 \<Rightarrow>
     (case scanUint 8 s5 of
        None \<Rightarrow> None
      | Some (p, s6) \<Rightarrow> Some (m, t, p)))))))"

text \<open>
  \<^verbatim>\<open>base64.RawStdEncoding\<close>: the standard alphabet, no padding. The decoder skips
  carriage returns and line feeds, refuses every other character outside the alphabet,
  refuses a single trailing character and does not look at unused trailing bits.
\<close>

definition enc6 :: "nat \<Rightarrow> char" where
  "enc6 v =
     char_of (if v < 26 then v + 65 else if v < 52 then v + 71 else if v < 62 then v - 4
              else if v = 62 then 43 else (47::nat))"

definition dec6 :: "char \<Rightarrow> nat option" where
  "dec6 c =
     (let n = (of_char c :: nat) in
      if 65 \<le> n \<and> n \<le> 90 then Some (n - 65)
      else if 97 \<le> n \<and> n \<le> 122 then Some (n - 71)
      else if 48 \<le> n \<and> n \<le> 57 then Some (n + 4)
      else if n = 43 then Some 62
      else if n = 47 then Some 63
      else None)"

fun b64_sextets :: "byte list \<Rightarrow> nat list" where
  "b64_sextets (a # b # c # rest) =
     unat (drop_bit 2 a)
     # unat (push_bit 4 (a AND 3) OR drop_bit 4 b)
     # unat (push_bit 2 (b AND 15) OR drop_bit 6 c)
     # unat (c AND 63)
     # b64_sextets rest"
| "b64_sextets [a, b] =
     [unat (drop_bit 2 a), unat (push_bit 4 (a AND 3) OR drop_bit 4 b), unat (push_bit 2 (b AND 15))]"
| "b64_sextets [a] = [unat (drop_bit 2 a), unat (push_bit 4 (a AND 3))]"
| "b64_sextets [] = []"

definition EncodeToString :: "byte list \<Rightarrow> string" where
  "EncodeToString bs = map enc6 (b64_sextets bs)"

fun b64_bytes :: "nat list \<Rightarrow> byte list option" where
  "b64_bytes (p # q # r # s # rest) =
     map_option
       (\<lambda>bs. (push_bit 2 (of_nat p) OR drop_bit 4 (of_nat q))
             # (push_bit 4 (of_nat q) OR drop_bit 2 (of_nat r))
             # (push_bit 6 (of_nat r) OR of_nat s)
             # bs)
       (b64_bytes rest)"
| "b64_bytes [p, q, r] =
     Some [push_bit 2 (of_nat p) OR drop_bit 4 (of_nat q),
           push_bit 4 (of_nat q) OR drop_bit 2 (of_nat r)]"
| "b64_bytes [p, q] = Some [push_bit 2 (of_nat p) OR drop_bit 4 (of_nat q)]"
| "b64_bytes [p] = None"
| "b64_bytes [] = Some []"

fun dec6_all :: "string \<Rightarrow> nat list option" where
  "dec6_all [] = Some []"
| "dec6_all (c # cs) =
     (case dec6 c of
        None \<Rightarrow> None
      | Some v \<Rightarrow> map_option ((#) v) (dec6_all cs))"

definition DecodeString :: "string \<Rightarrow> error + byte list" where
  "DecodeString s =
     (case dec6_all (filter (\<lambda>c. (of_char c :: nat) \<noteq> 10 \<and> (of_char c :: nat) \<noteq> 13) s) of
        None \<Rightarrow> Inl ErrCorruptInput
      | Some vs \<Rightarrow> (case b64_bytes vs of None \<Rightarrow> Inl ErrCorruptInput | Some bs \<Rightarrow> Inr bs))"

text \<open>\<^verbatim>\<open>hex.EncodeToString\<close>: two lower-case digits a byte.\<close>

definition hex_digit :: "nat \<Rightarrow> char" where
  "hex_digit v = char_of (if v < 10 then 48 + v else 87 + v)"

definition hex_EncodeToString :: "byte list \<Rightarrow> string" where
  "hex_EncodeToString bs =
     concat (map (\<lambda>b. [hex_digit (unat (drop_bit 4 b)), hex_digit (unat (b AND 15))]) bs)"

subsection \<open>Outcomes\<close>

text \<open>
  A Go call returns its value, returns an error, or panics. \<^verbatim>\<open>argon2.IDKey\<close> panics
  when its cost parameters are out of range, and a panic is not caught by a test
  \<^verbatim>\<open>err != nil\<close>: it passes through every caller.
\<close>

datatype 'a outcome = Ok 'a | Err error | Panic

subsection \<open>Configuration (\<^verbatim>\<open>config.go\<close>)\<close>

text \<open>
  Record fields carry a prefix (\<open>cfg_\<close>, \<open>c_\<close>, \<open>tp_\<close>, \<open>u_\<close>, \<open>rt_\<close>, \<open>h_\<close>,
  \<open>p_\<close>) since several Go structs share field names. The two RSA keys are opaque.
\<close>

record Config =
  cfg_Issuer :: string
  cfg_Audience :: string
  cfg_AccessTokenDuration :: duration
  cfg_RefreshTokenDuration :: duration
  cfg_PrivateKey :: string
  cfg_PublicKey :: string
  cfg_PasswordMinLength :: int
  cfg_PasswordRequireUpper :: bool
  cfg_PasswordRequireLower :: bool
  cfg_PasswordRequireDigit :: bool
  cfg_PasswordRequireSpecial :: bool
  cfg_MaxFailedAttempts :: int
  cfg_LockoutDuration :: duration

subsection \<open>Token claims (\<^verbatim>\<open>jwt.go\<close>)\<close>

datatype TokenType = TokenTypeAccess | TokenTypeRefresh

fun TokenType_string :: "TokenType \<Rightarrow> string" where
  "TokenType_string TokenTypeAccess = ''access''"
| "TokenType_string TokenTypeRefresh = ''refresh''"

text \<open>\<^verbatim>\<open>Claims\<close> with the fields of the embedded \<^verbatim>\<open>jwt.RegisteredClaims\<close>.\<close>

record Claims =
  c_Issuer :: string
  c_Subject :: string
  c_Audience :: "string list"
  c_ExpiresAt :: "time option"
  c_NotBefore :: "time option"
  c_IssuedAt :: "time option"
  c_ID :: string
  c_UserID :: int
  c_Email :: string
  c_EmailVerified :: bool
  c_Role :: string
  c_TokenType :: string

record TokenPair =
  tp_AccessToken :: string
  tp_RefreshToken :: string
  tp_ExpiresAt :: time
  tp_TokenType :: string

subsection \<open>Libraries and the surroundings of a call\<close>

text \<open>
  \<open>Lib\<close>: \<^verbatim>\<open>argon2.IDKey(password, salt, time, memory, threads, keyLen)\<close>, \<open>None\<close> where it
  panics; \<^verbatim>\<open>jwt.NewWithClaims(SigningMethodRS256, claims).SignedString(privateKey)\<close>,
  \<open>None\<close> where it returns an error; the part of \<^verbatim>\<open>jwt.ParseWithClaims\<close> that does not
  depend on the clock (the three segments decode, the header names an RSA method, the
  signature verifies under the public key), \<open>None\<close> where it fails;
  \<^verbatim>\<open>sha256.Sum256\<close>; the runes of a string and the classes of package \<^verbatim>\<open>unicode\<close>.

  \<open>Io\<close>: what one call of the adapter reads from outside: the clock, which calls of the
  database fail (connection lost, context cancelled), the bytes of \<^verbatim>\<open>rand.Read\<close>
  (\<open>None\<close>: it returns an error) and the two identifiers of \<^verbatim>\<open>uuid.New()\<close>.
  One call reads the clock several times; the model takes one reading for all of them.
\<close>

record Lib =
  argon2_IDKey :: "string \<Rightarrow> byte list \<Rightarrow> nat \<Rightarrow> nat \<Rightarrow> nat \<Rightarrow> nat \<Rightarrow> byte list option"
  jwt_SignedString :: "string \<Rightarrow> Claims \<Rightarrow> string option"
  jwt_ParseSigned :: "string \<Rightarrow> string \<Rightarrow> Claims option"
  sha256_Sum256 :: "string \<Rightarrow> byte list"
  utf8_runes :: "string \<Rightarrow> nat list"
  unicode_IsUpper :: "nat \<Rightarrow> bool"
  unicode_IsLower :: "nat \<Rightarrow> bool"
  unicode_IsDigit :: "nat \<Rightarrow> bool"
  unicode_IsPunct :: "nat \<Rightarrow> bool"
  unicode_IsSymbol :: "nat \<Rightarrow> bool"

datatype store_call =
    Call_GetByEmail
  | Call_GetByID
  | Call_IncrementFailedLoginAttempts
  | Call_LockAccount
  | Call_ResetFailedLoginAttempts
  | Call_UpdateLastLogin
  | Call_UpdatePassword
  | Call_Create
  | Call_GetByHash
  | Call_Revoke
  | Call_RevokeAllForUser

record Io =
  io_now :: time
  io_fails :: "store_call \<Rightarrow> bool"
  io_rand :: "nat \<Rightarrow> byte list option"
  io_uuid_access :: string
  io_uuid_refresh :: string

subsection \<open>Password hasher (\<^verbatim>\<open>password.go\<close>)\<close>

record PasswordHasher =
  h_config :: Config
  h_memory :: nat
  h_iterations :: nat
  h_parallelism :: nat
  h_saltLength :: nat
  h_keyLength :: nat

definition NewPasswordHasher :: "Config \<Rightarrow> PasswordHasher" where
  "NewPasswordHasher config =
     \<lparr>h_config = config, h_memory = 64 * 1024, h_iterations = 3, h_parallelism = 2,
      h_saltLength = 16, h_keyLength = 32\<rparr>"

definition argon2_Version :: int where
  "argon2_Version = 19"

definition Hash :: "Lib \<Rightarrow> Io \<Rightarrow> PasswordHasher \<Rightarrow> string \<Rightarrow> string outcome" where
  "Hash lib io h password =
     (case io_rand io (h_saltLength h) of
        None \<Rightarrow> Err (ErrWrap ''failed to generate salt'' ErrRand)
      | Some salt \<Rightarrow>
          (case argon2_IDKey lib password salt (h_iterations h) (h_memory h) (h_parallelism h)
                  (h_keyLength h) of
             None \<Rightarrow> Panic
           | Some hash \<Rightarrow>
               Ok (''$argon2id$v='' @ show_int argon2_Version
                   @ ''$m='' @ show_nat (h_memory h)
                   @ '',t='' @ show_nat (h_iterations h)
                   @ '',p='' @ show_nat (h_parallelism h)
                   @ ''$'' @ EncodeToString salt
                   @ ''$'' @ EncodeToString hash)))"

record argon2Params =
  p_memory :: nat
  p_iterations :: nat
  p_parallelism :: nat
  p_keyLength :: nat

definition decodeHash :: "string \<Rightarrow> (argon2Params \<times> byte list \<times> byte list) outcome" where
  "decodeHash encodedHash =
     (case split_on CHR ''$'' encodedHash of
        [part0, part1, part2, part3, part4, part5] \<Rightarrow>
          if part1 \<noteq> ''argon2id'' then Err (ErrNew ''unsupported hash algorithm'')
          else (case Sscanf_version part2 of
             None \<Rightarrow> Err (ErrWrap ''invalid version'' ErrScan)
           | Some version \<Rightarrow>
          if version \<noteq> argon2_Version then Err (ErrNew ''incompatible argon2 version'')
          else (case Sscanf_params part3 of
             None \<Rightarrow> Err (ErrWrap ''invalid parameters'' ErrScan)
           | Some (m, t, p) \<Rightarrow>
          (case DecodeString part4 of
             Inl e \<Rightarrow> Err (ErrWrap ''invalid salt'' e)
           | Inr salt \<Rightarrow>
          (case DecodeString part5 of
             Inl e \<Rightarrow> Err (ErrWrap ''invalid hash'' e)
           | Inr hash \<Rightarrow>
               Ok (\<lparr>p_memory = m, p_iterations = t, p_parallelism = p,
                    p_keyLength = length hash\<rparr>, salt, hash)))))
      | _ \<Rightarrow> Err (ErrNew ''invalid hash format''))"

text \<open>\<^verbatim>\<open>subtle.ConstantTimeCompare\<close>: 1 when the two slices are equal, 0 otherwise.\<close>

definition ConstantTimeCompare :: "byte list \<Rightarrow> byte list \<Rightarrow> int" where
  "ConstantTimeCompare x y = (if x = y then 1 else 0)"

definition Verify :: "Lib \<Rightarrow> string \<Rightarrow> string \<Rightarrow> bool outcome" where
  "Verify lib password encodedHash =
     (case decodeHash encodedHash of
        Err e \<Rightarrow> Err e
      | Panic \<Rightarrow> Panic
      | Ok (params, salt, hash) \<Rightarrow>
          (case argon2_IDKey lib password salt (p_iterations params) (p_memory params)
                  (p_parallelism params) (p_keyLength params) of
             None \<Rightarrow> Panic
           | Some otherHash \<Rightarrow>
               if ConstantTimeCompare hash otherHash = 1 then Ok True else Ok False))"

text \<open>
  \<^verbatim>\<open>ValidatePassword\<close>: the loop over the runes sets one flag a rune, the first case of
  the \<^verbatim>\<open>switch\<close> that applies.
\<close>

definition classify :: "Lib \<Rightarrow> (bool \<times> bool \<times> bool \<times> bool) \<Rightarrow> nat \<Rightarrow> (bool \<times> bool \<times> bool \<times> bool)" where
  "classify lib flags r =
     (case flags of (hasUpper, hasLower, hasDigit, hasSpecial) \<Rightarrow>
        if unicode_IsUpper lib r then (True, hasLower, hasDigit, hasSpecial)
        else if unicode_IsLower lib r then (hasUpper, True, hasDigit, hasSpecial)
        else if unicode_IsDigit lib r then (hasUpper, hasLower, True, hasSpecial)
        else if unicode_IsPunct lib r \<or> unicode_IsSymbol lib r then (hasUpper, hasLower, hasDigit, True)
        else flags)"

definition ValidatePassword :: "Lib \<Rightarrow> PasswordHasher \<Rightarrow> string \<Rightarrow> error option" where
  "ValidatePassword lib h password =
     (if int (length password) < cfg_PasswordMinLength (h_config h) then
        Some (ErrNew (''password must be at least '' @ show_int (cfg_PasswordMinLength (h_config h))
                      @ '' characters''))
      else
        (case foldl (classify lib) (False, False, False, False) (utf8_runes lib password) of
           (hasUpper, hasLower, hasDigit, hasSpecial) \<Rightarrow>
             if cfg_PasswordRequireUpper (h_config h) \<and> \<not> hasUpper then
               Some (ErrNew ''password must contain at least one uppercase letter'')
             else if cfg_PasswordRequireLower (h_config h) \<and> \<not> hasLower then
               Some (ErrNew ''password must contain at least one lowercase letter'')
             else if cfg_PasswordRequireDigit (h_config h) \<and> \<not> hasDigit then
               Some (ErrNew ''password must contain at least one digit'')
             else if cfg_PasswordRequireSpecial (h_config h) \<and> \<not> hasSpecial then
               Some (ErrNew ''password must contain at least one special character'')
             else None))"

subsection \<open>Token manager (\<^verbatim>\<open>jwt.go\<close>)\<close>

text \<open>\<^verbatim>\<open>jwt.NewNumericDate\<close> truncates to the second.\<close>

definition NewNumericDate :: "time \<Rightarrow> time" where
  "NewNumericDate t = t - t mod 1000000000"

definition GenerateTokenPair ::
  "Config \<Rightarrow> Lib \<Rightarrow> Io \<Rightarrow> int \<Rightarrow> string \<Rightarrow> bool \<Rightarrow> string \<Rightarrow> TokenPair outcome" where
  "GenerateTokenPair cfg lib io userID email emailVerified role =
     (let now = io_now io;
          accessExpiry = now + cfg_AccessTokenDuration cfg;
          refreshExpiry = now + cfg_RefreshTokenDuration cfg;
          accessClaims =
            \<lparr>c_Issuer = cfg_Issuer cfg, c_Subject = show_int userID,
             c_Audience = [cfg_Audience cfg],
             c_ExpiresAt = Some (NewNumericDate accessExpiry), c_NotBefore = None,
             c_IssuedAt = Some (NewNumericDate now), c_ID = io_uuid_access io,
             c_UserID = userID, c_Email = email, c_EmailVerified = emailVerified,
             c_Role = role, c_TokenType = TokenType_string TokenTypeAccess\<rparr>
      in case jwt_SignedString lib (cfg_PrivateKey cfg) accessClaims of
           None \<Rightarrow> Err (ErrWrap ''failed to sign access token'' ErrSign)
         | Some accessTokenString \<Rightarrow>
             (let refreshClaims =
                    \<lparr>c_Issuer = cfg_Issuer cfg, c_Subject = show_int userID,
                     c_Audience = [cfg_Audience cfg],
                     c_ExpiresAt = Some (NewNumericDate refreshExpiry), c_NotBefore = None,
                     c_IssuedAt = Some (NewNumericDate now), c_ID = io_uuid_refresh io,
                     c_UserID = userID, c_Email = email, c_EmailVerified = emailVerified,
                     c_Role = role, c_TokenType = TokenType_string TokenTypeRefresh\<rparr>
              in case jwt_SignedString lib (cfg_PrivateKey cfg) refreshClaims of
                   None \<Rightarrow> Err (ErrWrap ''failed to sign refresh token'' ErrSign)
                 | Some refreshTokenString \<Rightarrow>
                     Ok \<lparr>tp_AccessToken = accessTokenString,
                         tp_RefreshToken = refreshTokenString,
                         tp_ExpiresAt = accessExpiry,
                         tp_TokenType = ''Bearer''\<rparr>))"

text \<open>
  \<^verbatim>\<open>VerifyAudience(cmp, true)\<close>: an empty audience, or one of empty strings only, fails
  when the claim is required.
\<close>

definition VerifyAudience :: "string list \<Rightarrow> string \<Rightarrow> bool \<Rightarrow> bool" where
  "VerifyAudience aud cmp required =
     (if aud = [] then \<not> required
      else if concat aud = [] then \<not> required
      else cmp \<in> set aud)"

text \<open>
  \<^verbatim>\<open>verifyToken\<close>. \<^verbatim>\<open>jwt.ParseWithClaims\<close> checks the signature, then the registered
  time claims against the clock: a token at or past \<^verbatim>\<open>exp\<close> gives an error that is
  \<^verbatim>\<open>jwt.ErrTokenExpired\<close>, a token before \<^verbatim>\<open>nbf\<close> one that is not. Only then does the
  function look at the type, the issuer and the audience.
\<close>

definition verifyToken :: "Config \<Rightarrow> Lib \<Rightarrow> time \<Rightarrow> string \<Rightarrow> TokenType \<Rightarrow> Claims outcome" where
  "verifyToken cfg lib now tokenString expectedType =
     (case jwt_ParseSigned lib (cfg_PublicKey cfg) tokenString of
        None \<Rightarrow> Err ErrInvalidToken
      | Some claims \<Rightarrow>
          if (case c_ExpiresAt claims of None \<Rightarrow> False | Some exp \<Rightarrow> \<not> now < exp) then
            Err ErrTokenExpired
          else if (case c_NotBefore claims of None \<Rightarrow> False | Some nbf \<Rightarrow> now < nbf) then
            Err ErrInvalidToken
          else if c_TokenType claims \<noteq> TokenType_string expectedType then Err ErrInvalidToken
          else if c_Issuer claims \<noteq> cfg_Issuer cfg then Err ErrInvalidToken
          else if \<not> VerifyAudience (c_Audience claims) (cfg_Audience cfg) True then
            Err ErrInvalidToken
          else Ok claims)"

definition VerifyAccessToken :: "Config \<Rightarrow> Lib \<Rightarrow> time \<Rightarrow> string \<Rightarrow> Claims outcome" where
  "VerifyAccessToken cfg lib now tokenString = verifyToken cfg lib now tokenString TokenTypeAccess"

definition VerifyRefreshToken :: "Config \<Rightarrow> Lib \<Rightarrow> time \<Rightarrow> string \<Rightarrow> Claims outcome" where
  "VerifyRefreshToken cfg lib now tokenString = verifyToken cfg lib now tokenString TokenTypeRefresh"

definition HashToken :: "Lib \<Rightarrow> string \<Rightarrow> string" where
  "HashToken lib token = hex_EncodeToString (sha256_Sum256 lib token)"

subsection \<open>User domain (\<^verbatim>\<open>entity.go\<close>)\<close>

datatype UserStatus =
    UserStatusPendingVerification
  | UserStatusActive
  | UserStatusSuspended
  | UserStatusDeleted

datatype UserRole = RoleUser | RoleAdmin

fun UserRole_string :: "UserRole \<Rightarrow> string" where
  "UserRole_string RoleUser = ''user''"
| "UserRole_string RoleAdmin = ''admin''"

record User =
  u_ID :: int
  u_Email :: string
  u_PasswordHash :: string
  u_EmailVerified :: bool
  u_FullName :: "string option"
  u_AvatarURL :: "string option"
  u_Status :: UserStatus
  u_Role :: UserRole
  u_FailedLoginAttempts :: int
  u_LockedUntil :: "time option"
  u_PasswordChangedAt :: "time option"
  u_LastLoginAt :: "time option"
  u_LastLoginIP :: "string option"
  u_CreatedAt :: time
  u_UpdatedAt :: time

definition IsLocked :: "time \<Rightarrow> User \<Rightarrow> bool" where
  "IsLocked now u = (case u_LockedUntil u of None \<Rightarrow> False | Some until \<Rightarrow> now < until)"

text \<open>A row of \<^verbatim>\<open>users.refresh_tokens\<close>; the serial key is read by no operation.\<close>

record RefreshToken =
  rt_UserID :: int
  rt_TokenHash :: string
  rt_ExpiresAt :: time
  rt_Revoked :: bool
  rt_RevokedAt :: "time option"
  rt_DeviceInfo :: "string option"
  rt_IPAddress :: "string option"
  rt_UserAgent :: "string option"
  rt_CreatedAt :: time

subsection \<open>The database, the log and the repositories\<close>

text \<open>
  The two tables in row order and the lines the adapter has logged. Every statement of
  the queries file is one function; a repository method runs its statement unless the
  call fails, and a failed call leaves the tables as they are. \<^verbatim>\<open>token_hash\<close> and
  \<^verbatim>\<open>email\<close> are unique, \<^verbatim>\<open>refresh_tokens.user_id\<close> references \<^verbatim>\<open>users.id\<close>, a
  counter is a 32-bit \<^verbatim>\<open>INTEGER\<close>, and the trigger of the users table stamps
  \<^verbatim>\<open>updated_at\<close> on every update.
\<close>

datatype level = Error | Info

record state =
  users :: "User list"
  refresh_tokens :: "RefreshToken list"
  logged :: "(level \<times> string) list"

definition log_Error :: "string \<Rightarrow> state \<Rightarrow> state" where
  "log_Error msg s = s\<lparr>logged := logged s @ [(Error, msg)]\<rparr>"

definition log_Info :: "string \<Rightarrow> state \<Rightarrow> state" where
  "log_Info msg s = s\<lparr>logged := logged s @ [(Info, msg)]\<rparr>"

definition update_user :: "int \<Rightarrow> time \<Rightarrow> (User \<Rightarrow> User) \<Rightarrow> User list \<Rightarrow> User list" where
  "update_user uid now f us =
     map (\<lambda>u. if u_ID u = uid then (f u)\<lparr>u_UpdatedAt := now\<rparr> else u) us"

definition GetByEmail :: "Io \<Rightarrow> state \<Rightarrow> string \<Rightarrow> error + User" where
  "GetByEmail io s email =
     (if io_fails io Call_GetByEmail then Inl ErrDatabase
      else (case find (\<lambda>u. u_Email u = email) (users s) of
              None \<Rightarrow> Inl ErrUserNotFound
            | Some u \<Rightarrow> Inr u))"

definition GetByID :: "Io \<Rightarrow> state \<Rightarrow> int \<Rightarrow> error + User" where
  "GetByID io s uid =
     (if io_fails io Call_GetByID then Inl ErrDatabase
      else (case find (\<lambda>u. u_ID u = uid) (users s) of
              None \<Rightarrow> Inl ErrUserNotFound
            | Some u \<Rightarrow> Inr u))"

definition UpdatePassword :: "Io \<Rightarrow> state \<Rightarrow> int \<Rightarrow> string \<Rightarrow> error option \<times> state" where
  "UpdatePassword io s uid passwordHash =
     (if io_fails io Call_UpdatePassword then (Some ErrDatabase, s)
      else (None, s\<lparr>users := update_user uid (io_now io)
                       (\<lambda>u. u\<lparr>u_PasswordHash := passwordHash,
                               u_PasswordChangedAt := Some (io_now io)\<rparr>) (users s)\<rparr>))"

definition UpdateLastLogin :: "Io \<Rightarrow> state \<Rightarrow> int \<Rightarrow> string \<Rightarrow> error option \<times> state" where
  "UpdateLastLogin io s uid ip =
     (if io_fails io Call_UpdateLastLogin then (Some ErrDatabase, s)
      else (None, s\<lparr>users := update_user uid (io_now io)
                       (\<lambda>u. u\<lparr>u_LastLoginAt := Some (io_now io),
                               u_LastLoginIP := (if ip \<noteq> [] then Some ip else None)\<rparr>)
                       (users s)\<rparr>))"

definition IncrementFailedLoginAttempts :: "Io \<Rightarrow> state \<Rightarrow> int \<Rightarrow> error option \<times> state" where
  "IncrementFailedLoginAttempts io s uid =
     (if io_fails io Call_IncrementFailedLoginAttempts then (Some ErrDatabase, s)
      else if list_ex (\<lambda>u. u_ID u = uid \<and> 2147483647 < u_FailedLoginAttempts u + 1) (users s)
      then (Some ErrDatabase, s)
      else (None, s\<lparr>users := update_user uid (io_now io)
                       (\<lambda>u. u\<lparr>u_FailedLoginAttempts := u_FailedLoginAttempts u + 1\<rparr>)
                       (users s)\<rparr>))"

definition ResetFailedLoginAttempts :: "Io \<Rightarrow> state \<Rightarrow> int \<Rightarrow> error option \<times> state" where
  "ResetFailedLoginAttempts io s uid =
     (if io_fails io Call_ResetFailedLoginAttempts then (Some ErrDatabase, s)
      else (None, s\<lparr>users := update_user uid (io_now io)
                       (\<lambda>u. u\<lparr>u_FailedLoginAttempts := 0, u_LockedUntil := None\<rparr>)
                       (users s)\<rparr>))"

definition LockAccount :: "Io \<Rightarrow> state \<Rightarrow> int \<Rightarrow> time \<Rightarrow> error option \<times> state" where
  "LockAccount io s uid until =
     (if io_fails io Call_LockAccount then (Some ErrDatabase, s)
      else (None, s\<lparr>users := update_user uid (io_now io)
                       (\<lambda>u. u\<lparr>u_LockedUntil := Some until\<rparr>) (users s)\<rparr>))"

definition Create ::
  "Io \<Rightarrow> state \<Rightarrow> int \<Rightarrow> string \<Rightarrow> time \<Rightarrow> string option \<Rightarrow> string option \<Rightarrow> string option
   \<Rightarrow> (error + RefreshToken) \<times> state" where
  "Create io s userID tokenHash expiresAt deviceInfo ipAddress userAgent =
     (if io_fails io Call_Create then (Inl ErrDatabase, s)
      else if list_ex (\<lambda>r. rt_TokenHash r = tokenHash) (refresh_tokens s) then (Inl ErrDatabase, s)
      else if \<not> list_ex (\<lambda>u. u_ID u = userID) (users s) then (Inl ErrDatabase, s)
      else
        (let token =
               \<lparr>rt_UserID = userID, rt_TokenHash = tokenHash, rt_ExpiresAt = expiresAt,
                rt_Revoked = False, rt_RevokedAt = None, rt_DeviceInfo = deviceInfo,
                rt_IPAddress = ipAddress, rt_UserAgent = userAgent,
                rt_CreatedAt = io_now io\<rparr>
         in (Inr token, s\<lparr>refresh_tokens := refresh_tokens s @ [token]\<rparr>)))"

text \<open>\<^verbatim>\<open>GetRefreshTokenByHash\<close> selects among the rows that have not expired.\<close>

definition GetByHash :: "Io \<Rightarrow> state \<Rightarrow> string \<Rightarrow> error + RefreshToken" where
  "GetByHash io s tokenHash =
     (if io_fails io Call_GetByHash then Inl ErrDatabase
      else (case find (\<lambda>r. rt_TokenHash r = tokenHash \<and> io_now io < rt_ExpiresAt r)
                   (refresh_tokens s) of
              None \<Rightarrow> Inl DomainErrInvalidToken
            | Some r \<Rightarrow> Inr r))"

definition revoke_row :: "time \<Rightarrow> RefreshToken \<Rightarrow> RefreshToken" where
  "revoke_row now r = r\<lparr>rt_Revoked := True, rt_RevokedAt := Some now\<rparr>"

definition Revoke :: "Io \<Rightarrow> state \<Rightarrow> string \<Rightarrow> error option \<times> state" where
  "Revoke io s tokenHash =
     (if io_fails io Call_Revoke then (Some ErrDatabase, s)
      else (None, s\<lparr>refresh_tokens :=
                       map (\<lambda>r. if rt_TokenHash r = tokenHash then revoke_row (io_now io) r else r)
                         (refresh_tokens s)\<rparr>))"

definition RevokeAllForUser :: "Io \<Rightarrow> state \<Rightarrow> int \<Rightarrow> error option \<times> state" where
  "RevokeAllForUser io s userID =
     (if io_fails io Call_RevokeAllForUser then (Some ErrDatabase, s)
      else (None, s\<lparr>refresh_tokens :=
                       map (\<lambda>r. if rt_UserID r = userID \<and> \<not> rt_Revoked r
                                then revoke_row (io_now io) r else r)
                         (refresh_tokens s)\<rparr>))"

subsection \<open>The adapter (\<^verbatim>\<open>adapter.go\<close>)\<close>

text \<open>
  A repository error that the adapter only logs: the line is appended and the call goes
  on with the tables the failed statement left.
\<close>

definition logged_only :: "string \<Rightarrow> error option \<times> state \<Rightarrow> state" where
  "logged_only msg r = (case r of (None, s) \<Rightarrow> s | (Some e, s) \<Rightarrow> log_Error msg s)"

text \<open>\<^verbatim>\<open>int32(a.config.MaxFailedAttempts)\<close> and \<^verbatim>\<open>user.FailedLoginAttempts++\<close> on 32 bits.\<close>

definition int32 :: "int \<Rightarrow> int" where
  "int32 i = signed_take_bit 31 i"

text \<open>The branch of \<^verbatim>\<open>Login\<close> taken when the password does not verify.\<close>

definition Login_rejected :: "Config \<Rightarrow> Io \<Rightarrow> User \<Rightarrow> state \<Rightarrow> state" where
  "Login_rejected cfg io user s =
     (let s1 = logged_only ''failed to increment failed login attempts''
                 (IncrementFailedLoginAttempts io s (u_ID user));
          attempts = int32 (u_FailedLoginAttempts user + 1)
      in if int32 (cfg_MaxFailedAttempts cfg) \<le> attempts then
           logged_only ''failed to lock account''
             (LockAccount io s1 (u_ID user) (io_now io + cfg_LockoutDuration cfg))
         else s1)"

text \<open>The rest of \<^verbatim>\<open>Login\<close> once the password has verified.\<close>

definition Login_accepted ::
  "Config \<Rightarrow> Lib \<Rightarrow> Io \<Rightarrow> User \<Rightarrow> string \<Rightarrow> string \<Rightarrow> state \<Rightarrow> (TokenPair \<times> User) outcome \<times> state" where
  "Login_accepted cfg lib io user ipAddress userAgent s =
     (let s1 = (if 0 < u_FailedLoginAttempts user then
                  logged_only ''failed to reset failed login attempts''
                    (ResetFailedLoginAttempts io s (u_ID user))
                else s)
      in case GenerateTokenPair cfg lib io (u_ID user) (u_Email user) (u_EmailVerified user)
                (UserRole_string (u_Role user)) of
           Err e \<Rightarrow> (Err (ErrWrap ''failed to generate tokens'' e), s1)
         | Panic \<Rightarrow> (Panic, s1)
         | Ok tokenPair \<Rightarrow>
             (let refreshTokenHash = HashToken lib (tp_RefreshToken tokenPair);
                  expiresAt = io_now io + cfg_RefreshTokenDuration cfg;
                  ipPtr = (if ipAddress \<noteq> [] then Some ipAddress else None);
                  uaPtr = (if userAgent \<noteq> [] then Some userAgent else None);
                  s2 = (case Create io s1 (u_ID user) refreshTokenHash expiresAt None ipPtr uaPtr of
                          (Inl e, s') \<Rightarrow> log_Error ''failed to store refresh token'' s'
                        | (Inr t, s') \<Rightarrow> s');
                  s3 = logged_only ''failed to update last login''
                         (UpdateLastLogin io s2 (u_ID user) ipAddress);
                  s4 = log_Info ''user logged in'' s3
              in (Ok (tokenPair, user), s4)))"

definition Login ::
  "Config \<Rightarrow> Lib \<Rightarrow> Io \<Rightarrow> string \<Rightarrow> string \<Rightarrow> string \<Rightarrow> string \<Rightarrow> state
   \<Rightarrow> (TokenPair \<times> User) outcome \<times> state" where
  "Login cfg lib io email password ipAddress userAgent s =
     (case GetByEmail io s email of
        Inl e \<Rightarrow> (Err ErrInvalidCredentials, s)
      | Inr user \<Rightarrow>
          if IsLocked (io_now io) user then (Err ErrAccountLocked, s)
          else if u_Status user \<noteq> UserStatusActive
                  \<and> u_Status user \<noteq> UserStatusPendingVerification then
            (Err ErrAccountInactive, s)
          else (case Verify lib password (u_PasswordHash user) of
                  Panic \<Rightarrow> (Panic, s)
                | Ok True \<Rightarrow> Login_accepted cfg lib io user ipAddress userAgent s
                | Ok False \<Rightarrow> (Err ErrInvalidCredentials, Login_rejected cfg io user s)
                | Err e \<Rightarrow> (Err ErrInvalidCredentials, Login_rejected cfg io user s)))"

definition RefreshTokens :: "Config \<Rightarrow> Lib \<Rightarrow> Io \<Rightarrow> string \<Rightarrow> state \<Rightarrow> TokenPair outcome \<times> state" where
  "RefreshTokens cfg lib io refreshToken s =
     (case VerifyRefreshToken cfg lib (io_now io) refreshToken of
        Err e \<Rightarrow> (Err e, s)
      | Panic \<Rightarrow> (Panic, s)
      | Ok claims \<Rightarrow>
          (let tokenHash = HashToken lib refreshToken
           in case GetByHash io s tokenHash of
                Inl e \<Rightarrow> (Err ErrInvalidToken, s)
              | Inr storedToken \<Rightarrow>
                  if rt_Revoked storedToken then
                    (Err ErrInvalidToken,
                     logged_only ''failed to revoke all tokens after reuse detection''
                       (RevokeAllForUser io s (c_UserID claims)))
                  else
                    (let s1 = logged_only ''failed to revoke old refresh token''
                                (Revoke io s tokenHash)
                     in case GenerateTokenPair cfg lib io (c_UserID claims) (c_Email claims)
                               (c_EmailVerified claims) (c_Role claims) of
                          Err e \<Rightarrow> (Err (ErrWrap ''failed to generate new tokens'' e), s1)
                        | Panic \<Rightarrow> (Panic, s1)
                        | Ok tokenPair \<Rightarrow>
                            (let newTokenHash = HashToken lib (tp_RefreshToken tokenPair);
                                 expiresAt = io_now io + cfg_RefreshTokenDuration cfg;
                                 s2 = (case Create io s1 (c_UserID claims) newTokenHash expiresAt
                                              None None None of
                                         (Inl e, s') \<Rightarrow>
                                           log_Error ''failed to store new refresh token'' s'
                                       | (Inr t, s') \<Rightarrow> s')
                             in (Ok tokenPair, s2)))))"



definition ChangePassword ::
  "Config \<Rightarrow> Lib \<Rightarrow> Io \<Rightarrow> int \<Rightarrow> string \<Rightarrow> string \<Rightarrow> state \<Rightarrow> unit outcome \<times> state" where
  "ChangePassword cfg lib io userID currentPassword newPassword s =
     (case GetByID io s userID of
        Inl e \<Rightarrow> (Err e, s)
      | Inr user \<Rightarrow>
          (case Verify lib currentPassword (u_PasswordHash user) of
             Panic \<Rightarrow> (Panic, s)
           | Err e \<Rightarrow> (Err ErrInvalidCredentials, s)
           | Ok False \<Rightarrow> (Err ErrInvalidCredentials, s)
           | Ok True \<Rightarrow>
               (case ValidatePassword lib (NewPasswordHasher cfg) newPassword of
                  Some e \<Rightarrow> (Err e, s)
                | None \<Rightarrow>
                    (case Hash lib io (NewPasswordHasher cfg) newPassword of
                       Err e \<Rightarrow> (Err (ErrWrap ''failed to hash password'' e), s)
                     | Panic \<Rightarrow> (Panic, s)
                     | Ok newPasswordHash \<Rightarrow>
                         (case UpdatePassword io s userID newPasswordHash of
                            (Some e, s') \<Rightarrow> (Err e, s')
                          | (None, s') \<Rightarrow>
                              (let s1 = logged_only ''failed to revoke tokens after password change''
                                          (RevokeAllForUser io s' userID);
                                   s2 = log_Info ''user changed password'' s1
                               in (Ok (), s2)))))))"

text \<open>
  A run of \<^verbatim>\<open>Login\<close> calls for one email, one after the other, each with its own
  surroundings, password, address and user agent: the outcomes in order and the state
  the last call leaves.
\<close>

fun Login_attempts ::
  "Config \<Rightarrow> Lib \<Rightarrow> string \<Rightarrow> (Io \<times> string \<times> string \<times> string) list \<Rightarrow> state
   \<Rightarrow> (TokenPair \<times> User) outcome list \<times> state" where
  "Login_attempts cfg lib email [] s = ([], s)"
| "Login_attempts cfg lib email ((io, password, ipAddress, userAgent) # rest) s =
     (case Login cfg lib io email password ipAddress userAgent s of
        (r, s1) \<Rightarrow>
          (case Login_attempts cfg lib email rest s1 of
             (rs, s2) \<Rightarrow> (r # rs, s2)))"

section \<open>Concrete surroundings for closed examples\<close>

text \<open>
  \<open>LoadConfig_default\<close> is what \<^verbatim>\<open>LoadConfig\<close> returns when no environment variable is
  set (durations in nanoseconds). \<open>toy_Lib\<close> is one instance of the libraries, small
  enough to evaluate: the key derivation copies the password into a key of the asked
  length and refuses the cost parameters \<^verbatim>\<open>argon2.IDKey\<close> panics on, the digest is the
  token itself, and the signer knows four claim sets, the tokens \<open>tokA\<close> to \<open>tokD\<close>.
  \<open>alice\<close> is a registered user whose password is \<open>Passw0rd!\<close>; \<open>tokA\<close> and \<open>tokB\<close>
  are refresh tokens of hers issued at time 0, \<open>tokC\<close> and \<open>tokD\<close> are the pair that
  \<^verbatim>\<open>GenerateTokenPair\<close> makes for her at \<open>io_ok\<close>, 1000 seconds later.
\<close>

definition LoadConfig_default :: Config where
  "LoadConfig_default =
     \<lparr>cfg_Issuer = ''go-b2b-starter'', cfg_Audience = ''go-b2b-api'',
      cfg_AccessTokenDuration = 900000000000, cfg_RefreshTokenDuration = 604800000000000,
      cfg_PrivateKey = ''private key'', cfg_PublicKey = ''public key'',
      cfg_PasswordMinLength = 8, cfg_PasswordRequireUpper = True,
      cfg_PasswordRequireLower = True, cfg_PasswordRequireDigit = True,
      cfg_PasswordRequireSpecial = False,
      cfg_MaxFailedAttempts = 5, cfg_LockoutDuration = 900000000000\<rparr>"

definition claimsA :: Claims where
  "claimsA =
     \<lparr>c_Issuer = ''go-b2b-starter'', c_Subject = ''1'', c_Audience = [''go-b2b-api''],
      c_ExpiresAt = Some 604800000000000, c_NotBefore = None, c_IssuedAt = Some 0,
      c_ID = ''jti-A'', c_UserID = 1, c_Email = ''a@x.com'', c_EmailVerified = False,
      c_Role = ''user'', c_TokenType = ''refresh''\<rparr>"

definition claimsB :: Claims where
  "claimsB = claimsA\<lparr>c_ID := ''jti-B''\<rparr>"

definition claimsC :: Claims where
  "claimsC =
     \<lparr>c_Issuer = ''go-b2b-starter'', c_Subject = ''1'', c_Audience = [''go-b2b-api''],
      c_ExpiresAt = Some 1900000000000, c_NotBefore = None, c_IssuedAt = Some 1000000000000,
      c_ID = ''jti-C'', c_UserID = 1, c_Email = ''a@x.com'', c_EmailVerified = False,
      c_Role = ''user'', c_TokenType = ''access''\<rparr>"

definition claimsD :: Claims where
  "claimsD =
     \<lparr>c_Issuer = ''go-b2b-starter'', c_Subject = ''1'', c_Audience = [''go-b2b-api''],
      c_ExpiresAt = Some 605800000000000, c_NotBefore = None, c_IssuedAt = Some 1000000000000,
      c_ID = ''jti-D'', c_UserID = 1, c_Email = ''a@x.com'', c_EmailVerified = False,
      c_Role = ''user'', c_TokenType = ''refresh''\<rparr>"

function pad_to :: "nat \<Rightarrow> byte list \<Rightarrow> byte list" where
  "pad_to n bs =
     (if n = 0 then []
      else (case bs of [] \<Rightarrow> 0 # pad_to (n - 1) [] | b # bs' \<Rightarrow> b # pad_to (n - 1) bs'))"
  by pat_completeness auto
termination
  by (relation "measure fst") auto

declare pad_to.simps [simp del]

definition toy_IDKey :: "string \<Rightarrow> byte list \<Rightarrow> nat \<Rightarrow> nat \<Rightarrow> nat \<Rightarrow> nat \<Rightarrow> byte list option" where
  "toy_IDKey password salt t m p keyLen =
     (if t < 1 \<or> p < 1 \<or> keyLen < 1 then None
      else Some (pad_to keyLen (map (\<lambda>c. of_nat (of_char c)) password)))"

definition toy_SignedString :: "string \<Rightarrow> Claims \<Rightarrow> string option" where
  "toy_SignedString key c =
     (if key \<noteq> ''private key'' then None
      else if c = claimsA then Some ''tokA''
      else if c = claimsB then Some ''tokB''
      else if c = claimsC then Some ''tokC''
      else if c = claimsD then Some ''tokD''
      else None)"

definition toy_ParseSigned :: "string \<Rightarrow> string \<Rightarrow> Claims option" where
  "toy_ParseSigned key token =
     (if key \<noteq> ''public key'' then None
      else if token = ''tokA'' then Some claimsA
      else if token = ''tokB'' then Some claimsB
      else if token = ''tokC'' then Some claimsC
      else if token = ''tokD'' then Some claimsD
      else None)"

definition toy_Lib :: Lib where
  "toy_Lib =
     \<lparr>argon2_IDKey = toy_IDKey,
      jwt_SignedString = toy_SignedString,
      jwt_ParseSigned = toy_ParseSigned,
      sha256_Sum256 = map (\<lambda>c. of_nat (of_char c)),
      utf8_runes = map of_char,
      unicode_IsUpper = (\<lambda>r. 65 \<le> r \<and> r \<le> 90),
      unicode_IsLower = (\<lambda>r. 97 \<le> r \<and> r \<le> 122),
      unicode_IsDigit = (\<lambda>r. 48 \<le> r \<and> r \<le> 57),
      unicode_IsPunct = (\<lambda>r. r = 33),
      unicode_IsSymbol = (\<lambda>r. r = 43)\<rparr>"

definition io_ok :: Io where
  "io_ok =
     \<lparr>io_now = 1000000000000, io_fails = (\<lambda>c. False),
      io_rand = (\<lambda>n. if n = 16 then Some [1, 2, 3, 4, 5, 6, 7, 8, 9, 10, 11, 12, 13, 14, 15, 16] else None),
      io_uuid_access = ''jti-C'', io_uuid_refresh = ''jti-D''\<rparr>"

definition alice_hash :: string where
  "alice_hash =
     ''$argon2id$v=19$m=65536,t=3,p=2$AQIDBAUGBwgJCgsMDQ4PEA$UGFzc3cwcmQhAAAAAAAAAAAAAAAAAAAAAAAAAAAAAAA''"

definition alice :: User where
  "alice =
     \<lparr>u_ID = 1, u_Email = ''a@x.com'', u_PasswordHash = alice_hash, u_EmailVerified = False,
      u_FullName = Some ''Ann'', u_AvatarURL = None, u_Status = UserStatusPendingVerification,
      u_Role = RoleUser, u_FailedLoginAttempts = 0, u_LockedUntil = None,
      u_PasswordChangedAt = None, u_LastLoginAt = None, u_LastLoginIP = None,
      u_CreatedAt = 0, u_UpdatedAt = 0\<rparr>"

definition rowA :: RefreshToken where
  "rowA =
     \<lparr>rt_UserID = 1, rt_TokenHash = ''746f6b41'', rt_ExpiresAt = 604800000000000,
      rt_Revoked = True, rt_RevokedAt = Some 500000000000, rt_DeviceInfo = None,
      rt_IPAddress = None, rt_UserAgent = None, rt_CreatedAt = 0\<rparr>"

definition rowB :: RefreshToken where
  "rowB =
     \<lparr>rt_UserID = 1, rt_TokenHash = ''746f6b42'', rt_ExpiresAt = 604800000000000,
      rt_Revoked = False, rt_RevokedAt = None, rt_DeviceInfo = None,
      rt_IPAddress = None, rt_UserAgent = None, rt_CreatedAt = 0\<rparr>"

definition state0 :: state where
  "state0 = \<lparr>users = [alice], refresh_tokens = [], logged = []\<rparr>"

definition state1 :: state where
  "state1 = \<lparr>users = [alice], refresh_tokens = [rowA, rowB], logged = []\<rparr>"

text \<open>Alice after five failed attempts: locked until 500 seconds after \<open>io_ok\<close>.\<close>

definition state_locked :: state where
  "state_locked =
     \<lparr>users = [alice\<lparr>u_FailedLoginAttempts := 5, u_LockedUntil := Some 1500000000000\<rparr>],
      refresh_tokens = [], logged = []\<rparr>"

text \<open>\<open>io_ok\<close> with one failing call of the database, and \<open>io_ok\<close> at another time.\<close>

definition io_failing :: "store_call \<Rightarrow> Io" where
  "io_failing call = io_ok\<lparr>io_fails := (\<lambda>c. c = call)\<rparr>"

definition io_at :: "time \<Rightarrow> Io" where
  "io_at t = io_ok\<lparr>io_now := t\<rparr>"

text \<open>
  Alice's hash with text before its first dollar sign and after the numbers of its
  version and parameter segments, and with zero iterations and zero threads.
\<close>

definition junk_hash :: string where
  "junk_hash =
     ''junk$argon2id$v=19abc$m=65536,t=3,p=2xyz$AQIDBAUGBwgJCgsMDQ4PEA$UGFzc3cwcmQhAAAAAAAAAAAAAAAAAAAAAAAAAAAAAAA''"

definition zero_hash :: string where
  "zero_hash =
     ''$argon2id$v=19$m=65536,t=0,p=0$AQIDBAUGBwgJCgsMDQ4PEA$UGFzc3cwcmQhAAAAAAAAAAAAAAAAAAAAAAAAAAAAAAA''"

text \<open>The pair made at \<open>io_ok\<close> and the row that stores its refresh token.\<close>

definition pairCD :: TokenPair where
  "pairCD = \<lparr>tp_AccessToken = ''tokC'', tp_RefreshToken = ''tokD'',
              tp_ExpiresAt = 1900000000000, tp_TokenType = ''Bearer''\<rparr>"

definition rowD :: RefreshToken where
  "rowD =
     \<lparr>rt_UserID = 1, rt_TokenHash = ''746f6b44'', rt_ExpiresAt = 605800000000000,
      rt_Revoked = False, rt_RevokedAt = None, rt_DeviceInfo = None,
      rt_IPAddress = None, rt_UserAgent = None, rt_CreatedAt = 1000000000000\<rparr>"

text \<open>Five logins with a wrong password, the last of them with surroundings of its own.\<close>

definition five_wrong :: "Io \<Rightarrow> (Io \<times> string \<times> string \<times> string) list" where
  "five_wrong last_io =
     [(io_ok, ''wrong'', [], []), (io_ok, ''wrong'', [], []), (io_ok, ''wrong'', [], []),
      (io_ok, ''wrong'', [], []), (last_io, ''wrong'', [], [])]"

section \<open>Properties of the text functions\<close>

subsection \<open>Base64 decodes what it encoded\<close>

lemma m3: "(3::byte) = mask 2" and m15: "(15::byte) = mask 4" and m63: "(63::byte) = mask 6"
  by (simp_all add: mask_eq_exp_minus_1)

lemma b64_word1: "push_bit 2 (drop_bit 2 a) OR drop_bit 4 (push_bit 4 (a AND 3) OR drop_bit 4 b) = (a::byte)"
  unfolding m3
proof (rule bit_word_eqI)
  fix n assume "n < LENGTH(8)"
  moreover have "2 \<le> n \<Longrightarrow> Suc (Suc (n - 2)) = n"
    by arith
  ultimately show "bit (push_bit 2 (drop_bit 2 a) OR drop_bit 4 (push_bit 4 (a AND mask 2) OR drop_bit 4 b)) n = bit a n"
    by (cases "2 \<le> n"; cases "4 \<le> n") (auto simp: bit_simps)
qed

lemma b64_word2: "push_bit 4 (push_bit 4 (a AND 3) OR drop_bit 4 b) OR drop_bit 2 (push_bit 2 (b AND 15) OR drop_bit 6 c) = (b::byte)"
  unfolding m3 m15
proof (rule bit_word_eqI)
  fix n assume "n < LENGTH(8)"
  then show "bit (push_bit 4 (push_bit 4 (a AND mask 2) OR drop_bit 4 b) OR drop_bit 2 (push_bit 2 (b AND mask 4) OR drop_bit 6 c)) n = bit b n"
    by (cases "4 \<le> n"; cases "6 \<le> n") (auto simp: bit_simps le_Suc_ex)
qed

lemma b64_word3: "push_bit 6 (push_bit 2 (b AND 15) OR drop_bit 6 c) OR (c AND 63) = (c::byte)"
  unfolding m15 m63
proof (rule bit_word_eqI)
  fix n assume "n < LENGTH(8)"
  then show "bit (push_bit 6 (push_bit 2 (b AND mask 4) OR drop_bit 6 c) OR (c AND mask 6)) n = bit c n"
    by (cases "6 \<le> n") (auto simp: bit_simps le_Suc_ex)
qed


lemma dec6_enc6: "v < 64 \<Longrightarrow> dec6 (enc6 v) = Some v"
  by (auto simp: dec6_def enc6_def Let_def)

lemma of_char_enc6:
  "(of_char (enc6 v) :: nat) =
     (if v < 26 then v + 65 else if v < 52 then v + 71 else if v < 62 then v - 4
      else if v = 62 then 43 else 47)"
  by (simp add: enc6_def)

lemma enc6_not_dollar: "enc6 v \<noteq> CHR ''$''"
proof
  assume "enc6 v = CHR ''$''"
  then have "(of_char (enc6 v) :: nat) = of_char CHR ''$''"
    by simp
  then show False
    by (simp add: of_char_enc6 split: if_splits)
qed

lemma enc6_not_nl: "(of_char (enc6 v) :: nat) \<noteq> 10 \<and> (of_char (enc6 v) :: nat) \<noteq> 13"
  by (auto simp: of_char_enc6)

lemma split_on_no_sep: "sep \<notin> set xs \<Longrightarrow> split_on sep xs = [xs]"
  by (induction xs) auto

lemma split_on_append: "sep \<notin> set xs \<Longrightarrow> split_on sep (xs @ sep # ys) = xs # split_on sep ys"
  by (induction xs) auto

lemma unat_lt_64I:
  fixes x :: byte
  assumes "\<And>n. bit x n \<Longrightarrow> n < 6"
  shows "unat x < 64"
proof -
  have "take_bit 6 x = x"
    by (rule bit_word_eqI) (auto simp: bit_simps dest: assms)
  then have "unat x = take_bit 6 (unat x)"
    by (metis unsigned_take_bit_eq)
  also have "\<dots> < 2 ^ 6"
    by (rule take_bit_nat_less_exp)
  finally show ?thesis by simp
qed

lemma sextet1: "unat (drop_bit 2 (a::byte)) < 64"
  by (rule unat_lt_64I) (auto simp: bit_simps dest: bit_imp_le_length)

lemma sextet2: "unat (push_bit 4 (a AND 3) OR drop_bit 4 (b::byte)) < 64"
  unfolding m3 by (rule unat_lt_64I) (auto simp: bit_simps dest: bit_imp_le_length)

lemma sextet3: "unat (push_bit 2 (b AND 15) OR drop_bit 6 (c::byte)) < 64"
  unfolding m15 by (rule unat_lt_64I) (auto simp: bit_simps dest: bit_imp_le_length)

lemma sextet4: "unat ((c::byte) AND 63) < 64"
  unfolding m63 by (rule unat_lt_64I) (auto simp: bit_simps)

lemma sextet2': "unat (push_bit 4 ((a::byte) AND 3)) < 64"
  unfolding m3 by (rule unat_lt_64I) (auto simp: bit_simps)

lemma sextet3': "unat (push_bit 2 ((b::byte) AND 15)) < 64"
  unfolding m15 by (rule unat_lt_64I) (auto simp: bit_simps)

lemma b64_word1': "push_bit 2 (drop_bit 2 a) OR drop_bit 4 (push_bit 4 (a AND 3)) = (a::byte)"
  unfolding m3
proof (rule bit_word_eqI)
  fix n assume "n < LENGTH(8)"
  moreover have "2 \<le> n \<Longrightarrow> Suc (Suc (n - 2)) = n"
    by arith
  ultimately show "bit (push_bit 2 (drop_bit 2 a) OR drop_bit 4 (push_bit 4 (a AND mask 2))) n = bit a n"
    by (cases "2 \<le> n"; cases "4 \<le> n") (auto simp: bit_simps)
qed

lemma b64_word2': "push_bit 4 (push_bit 4 (a AND 3) OR drop_bit 4 b) OR drop_bit 2 (push_bit 2 (b AND 15)) = (b::byte)"
  unfolding m3 m15
proof (rule bit_word_eqI)
  fix n assume "n < LENGTH(8)"
  then show "bit (push_bit 4 (push_bit 4 (a AND mask 2) OR drop_bit 4 b) OR drop_bit 2 (push_bit 2 (b AND mask 4))) n = bit b n"
    by (cases "4 \<le> n"; cases "6 \<le> n") (auto simp: bit_simps le_Suc_ex)
qed

lemma sextets_lt: "list_all (\<lambda>v. v < 64) (b64_sextets bs)"
  by (induction bs rule: b64_sextets.induct)
     (simp_all only: b64_sextets.simps list.pred_inject sextet1 sextet2 sextet3 sextet4 sextet2' sextet3' simp_thms)

lemma dec6_all_enc: "list_all (\<lambda>v. v < 64) vs \<Longrightarrow> dec6_all (map enc6 vs) = Some vs"
  by (induction vs) (simp_all add: dec6_enc6)

lemma of_nat_unat_byte: "(of_nat (unat (w::byte)) :: byte) = w"
  by simp

lemma b64_bytes_sextets: "b64_bytes (b64_sextets bs) = Some bs"
  by (induction bs rule: b64_sextets.induct)
     (simp_all only: b64_sextets.simps b64_bytes.simps of_nat_unat_byte
        b64_word1 b64_word2 b64_word3 b64_word1' b64_word2' option.map)

lemma filter_enc6: "filter (\<lambda>c. (of_char c :: nat) \<noteq> 10 \<and> (of_char c :: nat) \<noteq> 13) (map enc6 vs) = map enc6 vs"
  by (induction vs) (simp_all add: enc6_not_nl)

lemma DecodeString_EncodeToString: "DecodeString (EncodeToString bs) = Inr bs"
  by (simp add: DecodeString_def EncodeToString_def filter_enc6 dec6_all_enc sextets_lt b64_bytes_sextets)

lemma EncodeToString_no_dollar: "CHR ''$'' \<notin> set (EncodeToString bs)"
  by (auto simp: EncodeToString_def enc6_not_dollar [symmetric])

subsection \<open>What \<^verbatim>\<open>Hash\<close> writes, \<^verbatim>\<open>decodeHash\<close> reads\<close>

lemmas char_evals = char_of_def bit_0

lemma show_consts:
  "show_int argon2_Version = ''19''" "show_nat 65536 = ''65536''"
  "show_nat 3 = ''3''" "show_nat 2 = ''2''"
  by (simp_all add: show_int_def argon2_Version_def show_nat.simps digit_char_def char_evals)

lemmas scan_defs =
  Sscanf_version_def Sscanf_params_def scanInt_def scanUint_def scanNumber_def is_digit_def
  read_nat_def digit_val_def Let_def

lemma scan_consts:
  "Sscanf_version ''v=19'' = Some 19"
  "Sscanf_params ''m=65536,t=3,p=2'' = Some (65536, 3, 2)"
  by (simp_all add: scan_defs)

lemma Hash_encoding:
  assumes "io_rand io 16 = Some salt"
    and "argon2_IDKey lib p salt 3 65536 2 32 = Some key"
  shows "Hash lib io (NewPasswordHasher cfg) p =
           Ok (''$argon2id$v=19$m=65536,t=3,p=2$'' @ EncodeToString salt @ ''$''
               @ EncodeToString key)"
  using assms by (simp add: Hash_def NewPasswordHasher_def show_consts)

lemma split_encoding:
  "split_on CHR ''$''
     (''$argon2id$v=19$m=65536,t=3,p=2$'' @ EncodeToString salt @ ''$'' @ EncodeToString key)
   = [[], ''argon2id'', ''v=19'', ''m=65536,t=3,p=2'', EncodeToString salt,
      EncodeToString key]"
  by (simp add: split_on_append split_on_no_sep EncodeToString_no_dollar)

lemma decodeHash_encoding:
  "decodeHash
     (''$argon2id$v=19$m=65536,t=3,p=2$'' @ EncodeToString salt @ ''$'' @ EncodeToString key)
   = Ok (\<lparr>p_memory = 65536, p_iterations = 3, p_parallelism = 2,
          p_keyLength = length key\<rparr>, salt, key)"
  unfolding decodeHash_def split_encoding
  by (simp add: scan_consts DecodeString_EncodeToString argon2_Version_def)

section \<open>The examples evaluated\<close>

lemma decode_alice:
  "decodeHash alice_hash =
     Ok (\<lparr>p_memory = 65536, p_iterations = 3, p_parallelism = 2, p_keyLength = 32\<rparr>,
         [1, 2, 3, 4, 5, 6, 7, 8, 9, 10, 11, 12, 13, 14, 15, 16],
         [80, 97, 115, 115, 119, 48, 114, 100, 33, 0, 0, 0, 0, 0, 0, 0, 0, 0, 0, 0, 0, 0, 0,
          0, 0, 0, 0, 0, 0, 0, 0, 0])"
  by (simp add: alice_hash_def decodeHash_def scan_defs DecodeString_def dec6_def
        argon2_Version_def)

lemma verify_alice: "Verify toy_Lib ''Passw0rd!'' alice_hash = Ok True"
  unfolding Verify_def decode_alice
  by (simp add: toy_Lib_def toy_IDKey_def pad_to.simps ConstantTimeCompare_def)

lemma verify_wrong: "Verify toy_Lib ''wrong'' alice_hash = Ok False"
  unfolding Verify_def decode_alice
  by (simp add: toy_Lib_def toy_IDKey_def pad_to.simps ConstantTimeCompare_def)

lemma hash_tok:
  "HashToken toy_Lib ''tokA'' = ''746f6b41''" "HashToken toy_Lib ''tokB'' = ''746f6b42''"
  "HashToken toy_Lib ''tokC'' = ''746f6b43''" "HashToken toy_Lib ''tokD'' = ''746f6b44''"
  by (simp_all add: HashToken_def toy_Lib_def hex_EncodeToString_def hex_digit_def char_evals)

lemmas claims_defs = claimsA_def claimsB_def claimsC_def claimsD_def

lemma generate_alice:
  "GenerateTokenPair LoadConfig_default toy_Lib io_ok 1 ''a@x.com'' False ''user'' =
     Ok \<lparr>tp_AccessToken = ''tokC'', tp_RefreshToken = ''tokD'',
         tp_ExpiresAt = 1900000000000, tp_TokenType = ''Bearer''\<rparr>"
  by (simp add: GenerateTokenPair_def LoadConfig_default_def toy_Lib_def io_ok_def
        toy_SignedString_def claims_defs show_int_def show_nat.simps digit_char_def char_evals
        NewNumericDate_def Let_def)

lemma hash_alice: "Hash toy_Lib io_ok (NewPasswordHasher cfg) ''Passw0rd!'' = Ok alice_hash"
  by (simp add: Hash_def NewPasswordHasher_def toy_Lib_def io_ok_def toy_IDKey_def
        pad_to.simps alice_hash_def show_int_def argon2_Version_def show_nat.simps
        digit_char_def EncodeToString_def enc6_def char_evals)

section \<open>Properties of the store and the log\<close>

lemma logged_only_tables [simp]:
  "users (logged_only msg (e, s)) = users s"
  "refresh_tokens (logged_only msg (e, s)) = refresh_tokens s"
  by (cases e; simp add: logged_only_def log_Error_def)+

lemma log_tables [simp]:
  "users (log_Error msg s) = users s" "refresh_tokens (log_Error msg s) = refresh_tokens s"
  "users (log_Info msg s) = users s" "refresh_tokens (log_Info msg s) = refresh_tokens s"
  by (simp_all add: log_Error_def log_Info_def)



lemma Create_fails_iff:
  "(\<exists>e. fst (Create io s uid h exp dev ip ua) = Inl e) \<longleftrightarrow>
     io_fails io Call_Create \<or> list_ex (\<lambda>r. rt_TokenHash r = h) (refresh_tokens s)
     \<or> \<not> list_ex (\<lambda>u. u_ID u = uid) (users s)"
  by (simp add: Create_def Let_def)

lemma Create_failed_state: "fst (Create io s uid h exp dev ip ua) = Inl e \<Longrightarrow> snd (Create io s uid h exp dev ip ua) = s"
  by (simp add: Create_def Let_def split: if_splits)

lemma update_user_ids:
  "(\<And>u. u_ID (f u) = u_ID u) \<Longrightarrow>
   list_ex (\<lambda>u. u_ID u = uid) (update_user uid' now f us) = list_ex (\<lambda>u. u_ID u = uid) us"
  by (induction us) (auto simp: update_user_def)

lemma Reset_tables [simp]:
  "refresh_tokens (snd (ResetFailedLoginAttempts io s uid)) = refresh_tokens s"
  "list_ex (\<lambda>u. u_ID u = uid') (users (snd (ResetFailedLoginAttempts io s uid))) = list_ex (\<lambda>u. u_ID u = uid') (users s)"
  by (simp_all add: ResetFailedLoginAttempts_def update_user_ids)

lemma UpdateLastLogin_tables [simp]:
  "refresh_tokens (snd (UpdateLastLogin io s uid ip)) = refresh_tokens s"
  by (simp_all add: UpdateLastLogin_def)

lemma logged_only_snd [simp]:
  "users (logged_only msg r) = users (snd r)"
  "refresh_tokens (logged_only msg r) = refresh_tokens (snd r)"
  by (cases r; simp)+

lemma verifyToken_no_Panic [simp]: "verifyToken cfg lib now t ty \<noteq> Panic"
  by (simp add: verifyToken_def split: option.splits)

lemma RefreshTokens_unknown_hash:
  assumes "\<not> list_ex (\<lambda>r. rt_TokenHash r = HashToken lib t) (refresh_tokens s)"
  shows "\<exists>e. RefreshTokens cfg lib io t s = (Err e, s)"
proof -
  have "find (\<lambda>r. rt_TokenHash r = HashToken lib t \<and> io_now io < rt_ExpiresAt r) (refresh_tokens s) = None"
    using assms by (auto simp: find_None_iff list_ex_iff)
  then have "\<exists>e. GetByHash io s (HashToken lib t) = Inl e"
    by (simp add: GetByHash_def)
  then show ?thesis
    by (auto simp: RefreshTokens_def Let_def VerifyRefreshToken_def split: outcome.splits)
qed

lemma Login_accepted_Create_fails:
  assumes "GenerateTokenPair cfg lib io (u_ID user) (u_Email user) (u_EmailVerified user)
           (UserRole_string (u_Role user)) = Ok tokenPair"
    and "fst (Create io s (u_ID user) (HashToken lib (tp_RefreshToken tokenPair))
                (io_now io + cfg_RefreshTokenDuration cfg) None
                (if ipAddress \<noteq> [] then Some ipAddress else None)
                (if userAgent \<noteq> [] then Some userAgent else None)) = Inl e"
    and "Login_accepted cfg lib io user ipAddress userAgent s = (res, s')"
  shows "res = Ok (tokenPair, user)
         \<and> refresh_tokens s' = refresh_tokens s
         \<and> (Error, ''failed to store refresh token'') \<in> set (logged s')"
proof -
  let ?h = "HashToken lib (tp_RefreshToken tokenPair)"
  define s1 where "s1 = (if 0 < u_FailedLoginAttempts user then
               logged_only ''failed to reset failed login attempts''
                 (ResetFailedLoginAttempts io s (u_ID user))
             else s)"
  define c where "c = Create io s1 (u_ID user) ?h (io_now io + cfg_RefreshTokenDuration cfg) None
              (if ipAddress \<noteq> [] then Some ipAddress else None)
              (if userAgent \<noteq> [] then Some userAgent else None)"
  have rt1: "refresh_tokens s1 = refresh_tokens s"
    by (simp add: s1_def)
  have us1: "list_ex (\<lambda>u. u_ID u = u_ID user) (users s1) = list_ex (\<lambda>u. u_ID u = u_ID user) (users s)"
    by (simp add: s1_def)
  have "io_fails io Call_Create \<or> list_ex (\<lambda>r. rt_TokenHash r = ?h) (refresh_tokens s)
        \<or> \<not> list_ex (\<lambda>u. u_ID u = u_ID user) (users s)"
    using assms(2) Create_fails_iff by blast
  then have "io_fails io Call_Create \<or> list_ex (\<lambda>r. rt_TokenHash r = ?h) (refresh_tokens s1)
        \<or> \<not> list_ex (\<lambda>u. u_ID u = u_ID user) (users s1)"
    by (simp only: rt1 us1)
  then obtain e1 where "fst c = Inl e1"
    unfolding c_def using Create_fails_iff by blast
  moreover from this have "snd c = s1"
    unfolding c_def by (rule Create_failed_state)
  ultimately have cc: "c = (Inl e1, s1)"
    by (cases c) simp
  have "Login_accepted cfg lib io user ipAddress userAgent s =
        (Ok (tokenPair, user),
         log_Info ''user logged in''
           (logged_only ''failed to update last login''
              (UpdateLastLogin io (log_Error ''failed to store refresh token'' s1) (u_ID user) ipAddress)))"
    unfolding Login_accepted_def Let_def s1_def [symmetric] assms(1) outcome.case c_def [symmetric] cc
    by simp
  with assms(3) have res: "res = Ok (tokenPair, user)"
    and s': "s' = log_Info ''user logged in''
           (logged_only ''failed to update last login''
              (UpdateLastLogin io (log_Error ''failed to store refresh token'' s1) (u_ID user) ipAddress))"
    by simp_all
  have rt: "refresh_tokens s' = refresh_tokens s"
    unfolding s' by (simp add: rt1)
  have lg: "(Error, ''failed to store refresh token'') \<in> set (logged s')"
    unfolding s'
    by (simp add: log_Info_def logged_only_def UpdateLastLogin_def log_Error_def)
  from res rt lg show ?thesis
    by blast
qed

lemma GenerateTokenPair_fails [simp]:
  "GenerateTokenPair cfg lib (io\<lparr>io_fails := f\<rparr>) uid em ev role
     = GenerateTokenPair cfg lib io uid em ev role"
  by (simp add: GenerateTokenPair_def Let_def split: option.splits)

lemma toy_sign_parse:
  "jwt_SignedString toy_Lib (cfg_PrivateKey LoadConfig_default) c = Some t
     \<Longrightarrow> jwt_ParseSigned toy_Lib (cfg_PublicKey LoadConfig_default) t = Some c"
  by (auto simp: toy_Lib_def LoadConfig_default_def toy_SignedString_def toy_ParseSigned_def
        split: if_splits)

lemma length6: "length xs = 6 \<Longrightarrow> \<exists>a b c d e f. xs = [a, b, c, d, e, f]"
  by (auto simp: eval_nat_numeral length_Suc_conv)

lemma decodeHash_not_six:
  "length (split_on CHR ''$'' enc) \<noteq> 6 \<Longrightarrow> decodeHash enc = Err (ErrNew ''invalid hash format'')"
  by (auto simp: decodeHash_def split: list.splits)

lemma decodeHash_six:
  assumes "split_on CHR ''$'' enc = [a, b, c, d, e, f]"
  shows "decodeHash enc =
     (if b \<noteq> ''argon2id'' then Err (ErrNew ''unsupported hash algorithm'')
      else (case Sscanf_version c of
             None \<Rightarrow> Err (ErrWrap ''invalid version'' ErrScan)
           | Some version \<Rightarrow>
          if version \<noteq> argon2_Version then Err (ErrNew ''incompatible argon2 version'')
          else (case Sscanf_params d of
             None \<Rightarrow> Err (ErrWrap ''invalid parameters'' ErrScan)
           | Some (m, t, p) \<Rightarrow>
          (case DecodeString e of
             Inl x \<Rightarrow> Err (ErrWrap ''invalid salt'' x)
           | Inr salt \<Rightarrow>
          (case DecodeString f of
             Inl x \<Rightarrow> Err (ErrWrap ''invalid hash'' x)
           | Inr hash \<Rightarrow>
               Ok (\<lparr>p_memory = m, p_iterations = t, p_parallelism = p,
                    p_keyLength = length hash\<rparr>, salt, hash))))))"
  by (simp add: decodeHash_def assms)

lemma decodeHash_no_Panic [simp]: "decodeHash enc \<noteq> Panic"
proof (cases "length (split_on CHR ''$'' enc) = 6")
  case True
  then obtain a b c d e f where "split_on CHR ''$'' enc = [a, b, c, d, e, f]"
    using length6 by blast
  then show ?thesis
    by (simp add: decodeHash_six split: option.splits sum.splits)
next
  case False
  then show ?thesis
    by (simp add: decodeHash_not_six)
qed

lemma GetByHash_Inr:
  "GetByHash io s h = Inr r \<Longrightarrow> r \<in> set (refresh_tokens s) \<and> rt_TokenHash r = h"
  by (auto simp: GetByHash_def find_Some_iff split: if_splits option.splits)

lemma RefreshTokens_revoked_row:
  assumes "\<And>r. r \<in> set (refresh_tokens s) \<Longrightarrow> rt_TokenHash r = HashToken lib t \<Longrightarrow> rt_Revoked r"
  shows "\<exists>e. fst (RefreshTokens cfg lib io t s) = Err e"
proof (cases "VerifyRefreshToken cfg lib (io_now io) t")
  case (Ok claims)
  show ?thesis
  proof (cases "GetByHash io s (HashToken lib t)")
    case (Inl e)
    with Ok show ?thesis
      by (simp add: RefreshTokens_def)
  next
    case (Inr r)
    with assms GetByHash_Inr have "rt_Revoked r"
      by blast
    with Ok Inr show ?thesis
      by (simp add: RefreshTokens_def)
  qed
next
  case (Err e)
  then show ?thesis
    by (simp add: RefreshTokens_def)
next
  case Panic
  then show ?thesis
    by (simp add: VerifyRefreshToken_def)
qed

lemmas toy_verify_defs =
  VerifyRefreshToken_def verifyToken_def toy_Lib_def toy_ParseSigned_def LoadConfig_default_def
  claims_defs VerifyAudience_def

lemma verify_tokA: "VerifyRefreshToken LoadConfig_default toy_Lib 1000000000000 ''tokA'' = Ok claimsA"
  by (simp add: toy_verify_defs)

lemma verify_tokB: "VerifyRefreshToken LoadConfig_default toy_Lib 1000000000000 ''tokB'' = Ok claimsB"
  by (simp add: toy_verify_defs)

lemma io_failing_simps [simp]:
  "io_now (io_failing c) = 1000000000000" "io_fails (io_failing c) c' = (c' = c)"
  "io_uuid_access (io_failing c) = ''jti-C''" "io_uuid_refresh (io_failing c) = ''jti-D''"
  by (simp_all add: io_failing_def io_ok_def)

lemma io_ok_simps [simp]:
  "io_now io_ok = 1000000000000" "io_fails io_ok c' = False"
  "io_uuid_access io_ok = ''jti-C''" "io_uuid_refresh io_ok = ''jti-D''"
  by (simp_all add: io_ok_def)

lemma generate_claimsB:
  "GenerateTokenPair LoadConfig_default toy_Lib io_ok (c_UserID claimsB) (c_Email claimsB)
     (c_EmailVerified claimsB) (c_Role claimsB)
   = Ok \<lparr>tp_AccessToken = ''tokC'', tp_RefreshToken = ''tokD'',
         tp_ExpiresAt = 1900000000000, tp_TokenType = ''Bearer''\<rparr>"
  by (simp add: claims_defs generate_alice)

lemma getbyhash_state1:
  "GetByHash (io_failing c) state1 ''746f6b41'' = (if c = Call_GetByHash then Inl ErrDatabase else Inr rowA)"
  "GetByHash io_ok state1 ''746f6b41'' = Inr rowA"
  "GetByHash io_ok state1 ''746f6b42'' = Inr rowB"
  by (simp_all add: GetByHash_def state1_def rowA_def rowB_def)

lemma verifyToken_Ok:
  assumes "verifyToken cfg lib now t ty = Ok c"
  shows "jwt_ParseSigned lib (cfg_PublicKey cfg) t = Some c
         \<and> (\<forall>now'. verifyToken cfg lib now' t ty =
               (if (case c_ExpiresAt c of None \<Rightarrow> False | Some exp \<Rightarrow> exp \<le> now')
                then Err ErrTokenExpired
                else if (case c_NotBefore c of None \<Rightarrow> False | Some nbf \<Rightarrow> now' < nbf)
                then Err ErrInvalidToken else Ok c))"
  using assms
  by (auto simp: verifyToken_def not_less split: option.splits if_splits)

lemma RefreshTokens_Ok:
  assumes "RefreshTokens cfg lib io t s = (Ok pair, s1)"
  shows "\<exists>claims stored.
           VerifyRefreshToken cfg lib (io_now io) t = Ok claims
           \<and> GetByHash io s (HashToken lib t) = Inr stored
           \<and> \<not> rt_Revoked stored
           \<and> refresh_tokens s1 = refresh_tokens
                (snd (Create io
                       (logged_only ''failed to revoke old refresh token''
                          (Revoke io s (HashToken lib t)))
                       (c_UserID claims) (HashToken lib (tp_RefreshToken pair))
                       (io_now io + cfg_RefreshTokenDuration cfg) None None None))"
  using assms
  by (auto simp: RefreshTokens_def Let_def
        split: outcome.splits sum.splits if_splits prod.splits)

lemma Create_rows:
  "refresh_tokens (snd (Create io s uid h exp dev ip ua)) = refresh_tokens s
   \<or> (\<not> list_ex (\<lambda>r. rt_TokenHash r = h) (refresh_tokens s)
      \<and> (\<exists>row. rt_TokenHash row = h
            \<and> refresh_tokens (snd (Create io s uid h exp dev ip ua)) = refresh_tokens s @ [row]))"
  by (simp add: Create_def Let_def)

lemma list_ex_map_same:
  "(\<And>x. P (f x) = P x) \<Longrightarrow> list_ex P (map f xs) = list_ex P xs"
  by (induction xs) auto

lemma getbyhash_state1_failing:
  "GetByHash (io_failing c) state1 ''746f6b42''
     = (if c = Call_GetByHash then Inl ErrDatabase else Inr rowB)"
  by (simp add: GetByHash_def state1_def rowA_def rowB_def)

lemma generate_claimsB_failing:
  "GenerateTokenPair LoadConfig_default toy_Lib (io_failing c) (c_UserID claimsB)
     (c_Email claimsB) (c_EmailVerified claimsB) (c_Role claimsB)
   = Ok \<lparr>tp_AccessToken = ''tokC'', tp_RefreshToken = ''tokD'',
         tp_ExpiresAt = 1900000000000, tp_TokenType = ''Bearer''\<rparr>"
  unfolding io_failing_def GenerateTokenPair_fails by (rule generate_claimsB)

lemma refresh_tokB_ok:
  "RefreshTokens LoadConfig_default toy_Lib io_ok ''tokB'' state1
     = (Ok pairCD, state1\<lparr>refresh_tokens := [rowA, revoke_row 1000000000000 rowB, rowD]\<rparr>)"
  by (simp add: RefreshTokens_def verify_tokB hash_tok getbyhash_state1 generate_claimsB Let_def
        pairCD_def Revoke_def logged_only_def Create_def)
     (simp add: state1_def rowA_def rowB_def rowD_def alice_def revoke_row_def claims_defs
        LoadConfig_default_def)

lemma refresh_tokB_Revoke_fails:
  "RefreshTokens LoadConfig_default toy_Lib (io_failing Call_Revoke) ''tokB'' state1
     = (Ok pairCD,
        state1\<lparr>refresh_tokens := [rowA, rowB, rowD],
                logged := [(Error, ''failed to revoke old refresh token'')]\<rparr>)"
  by (simp add: RefreshTokens_def verify_tokB hash_tok getbyhash_state1_failing
        generate_claimsB_failing Let_def pairCD_def Revoke_def logged_only_def Create_def log_Error_def)
     (simp add: state1_def rowA_def rowB_def rowD_def alice_def revoke_row_def claims_defs
        LoadConfig_default_def)

lemma find_update_user:
  assumes "\<And>u. u_Email (f u) = u_Email u"
  shows "find (\<lambda>u. u_Email u = e) (update_user uid now f us)
           = map_option (\<lambda>u. if u_ID u = uid then (f u)\<lparr>u_UpdatedAt := now\<rparr> else u)
               (find (\<lambda>u. u_Email u = e) us)"
  by (induction us) (simp_all add: update_user_def assms)

lemma ids_update_user:
  "(\<And>u. u_ID (f u) = u_ID u) \<Longrightarrow> map u_ID (update_user uid now f us) = map u_ID us"
  by (induction us) (simp_all add: update_user_def)

lemma find_in_set: "find P xs = Some x \<Longrightarrow> x \<in> set xs \<and> P x"
  by (auto simp: find_Some_iff)

lemma distinct_ids_unique:
  assumes "distinct (map u_ID us)" and "x \<in> set us" and "y \<in> set us" and "u_ID x = u_ID y"
  shows "x = y"
  using assms by (meson distinct_map inj_onD)

lemma int32_id: "- 2147483648 \<le> k \<Longrightarrow> k \<le> 2147483647 \<Longrightarrow> int32 k = k"
  by (simp add: int32_def signed_take_bit_int_eq_self)

lemma Login_wrong_step:
  assumes f: "find (\<lambda>u. u_Email u = email) (users s) = Some user"
    and d: "distinct (map u_ID (users s))"
    and nl: "\<not> IsLocked (io_now io) user"
    and st: "u_Status user = UserStatusActive \<or> u_Status user = UserStatusPendingVerification"
    and v: "Verify lib password (u_PasswordHash user) = Ok False
            \<or> (\<exists>e. Verify lib password (u_PasswordHash user) = Err e)"
    and nf: "\<not> io_fails io Call_GetByEmail" "\<not> io_fails io Call_IncrementFailedLoginAttempts"
            "\<not> io_fails io Call_LockAccount"
    and c: "0 \<le> u_FailedLoginAttempts user" "u_FailedLoginAttempts user < 2147483647"
    and n: "1 \<le> cfg_MaxFailedAttempts cfg" "cfg_MaxFailedAttempts cfg \<le> 2147483647"
  shows "\<exists>s' user'.
           Login cfg lib io email password ip ua s = (Err ErrInvalidCredentials, s')
           \<and> find (\<lambda>u. u_Email u = email) (users s') = Some user'
           \<and> distinct (map u_ID (users s'))
           \<and> u_FailedLoginAttempts user' = u_FailedLoginAttempts user + 1
           \<and> u_LockedUntil user' =
               (if cfg_MaxFailedAttempts cfg \<le> u_FailedLoginAttempts user + 1
                then Some (io_now io + cfg_LockoutDuration cfg) else u_LockedUntil user)
           \<and> u_PasswordHash user' = u_PasswordHash user
           \<and> u_Status user' = u_Status user"
proof -
  let ?uid = "u_ID user"
  let ?inc = "\<lambda>u. u\<lparr>u_FailedLoginAttempts := u_FailedLoginAttempts u + 1\<rparr>"
  let ?lock = "\<lambda>u. u\<lparr>u_LockedUntil := Some (io_now io + cfg_LockoutDuration cfg)\<rparr>"
  from f have mem: "user \<in> set (users s)"
    using find_in_set by fastforce
  have g: "GetByEmail io s email = Inr user"
    using f nf(1) by (simp add: GetByEmail_def)
  have L: "Login cfg lib io email password ip ua s
             = (Err ErrInvalidCredentials, Login_rejected cfg io user s)"
    using g nl st v by (auto simp: Login_def)
  have no_overflow: "\<not> list_ex (\<lambda>u. u_ID u = ?uid \<and> 2147483647 < u_FailedLoginAttempts u + 1) (users s)"
  proof
    assume "list_ex (\<lambda>u. u_ID u = ?uid \<and> 2147483647 < u_FailedLoginAttempts u + 1) (users s)"
    then obtain u where "u \<in> set (users s)" "u_ID u = ?uid" "2147483647 < u_FailedLoginAttempts u + 1"
      by (auto simp: list_ex_iff)
    with distinct_ids_unique [OF d _ mem] c(2) show False
      by fastforce
  qed
  let ?s1 = "s\<lparr>users := update_user ?uid (io_now io) ?inc (users s)\<rparr>"
  have inc: "logged_only ''failed to increment failed login attempts''
               (IncrementFailedLoginAttempts io s ?uid) = ?s1"
    using nf(2) no_overflow by (simp add: IncrementFailedLoginAttempts_def logged_only_def)
  have a32: "int32 (u_FailedLoginAttempts user + 1) = u_FailedLoginAttempts user + 1"
    using c by (intro int32_id) simp_all
  have n32: "int32 (cfg_MaxFailedAttempts cfg) = cfg_MaxFailedAttempts cfg"
    using n by (intro int32_id) simp_all
  let ?s2 = "?s1\<lparr>users := update_user ?uid (io_now io) ?lock (users ?s1)\<rparr>"
  have R: "Login_rejected cfg io user s
             = (if cfg_MaxFailedAttempts cfg \<le> u_FailedLoginAttempts user + 1 then ?s2 else ?s1)"
    unfolding Login_rejected_def Let_def inc a32 n32
    using nf(3) by (simp add: LockAccount_def logged_only_def)
  have f1: "find (\<lambda>u. u_Email u = email) (users ?s1)
              = Some ((?inc user)\<lparr>u_UpdatedAt := io_now io\<rparr>)"
    by (simp add: find_update_user f)
  have f2: "find (\<lambda>u. u_Email u = email) (users ?s2)
              = Some ((?lock ((?inc user)\<lparr>u_UpdatedAt := io_now io\<rparr>))\<lparr>u_UpdatedAt := io_now io\<rparr>)"
    by (simp add: find_update_user f)
  have d1: "distinct (map u_ID (users ?s1))"
    using d by (simp add: ids_update_user)
  have d2: "distinct (map u_ID (users ?s2))"
    using d by (simp add: ids_update_user)
  show ?thesis
  proof (cases "cfg_MaxFailedAttempts cfg \<le> u_FailedLoginAttempts user + 1")
    case True
    with L R f2 d2 show ?thesis
      by simp
  next
    case False
    with L R f1 d1 show ?thesis
      by simp
  qed
qed

lemma Login_attempts_append:
  "Login_attempts cfg lib email (as @ bs) s =
     (case Login_attempts cfg lib email as s of
        (rs, s1) \<Rightarrow>
          (case Login_attempts cfg lib email bs s1 of
             (rs', s2) \<Rightarrow> (rs @ rs', s2)))"
  by (induction as arbitrary: s) (auto split: prod.splits)

lemma Login_attempts_below_threshold:
  assumes "find (\<lambda>u. u_Email u = email) (users s) = Some user"
    and "distinct (map u_ID (users s))"
    and "u_LockedUntil user = None"
    and "u_Status user = UserStatusActive \<or> u_Status user = UserStatusPendingVerification"
    and "0 \<le> u_FailedLoginAttempts user"
    and "u_FailedLoginAttempts user + int (length attempts) < cfg_MaxFailedAttempts cfg"
    and "cfg_MaxFailedAttempts cfg \<le> 2147483647"
    and "\<forall>(io, password, ip, ua) \<in> set attempts.
           \<not> io_fails io Call_GetByEmail
           \<and> \<not> io_fails io Call_IncrementFailedLoginAttempts
           \<and> \<not> io_fails io Call_LockAccount
           \<and> (Verify lib password (u_PasswordHash user) = Ok False
              \<or> (\<exists>e. Verify lib password (u_PasswordHash user) = Err e))"
    and "Login_attempts cfg lib email attempts s = (rs, s')"
  shows "list_all (\<lambda>r. r = Err ErrInvalidCredentials) rs
         \<and> (\<exists>user'. find (\<lambda>u. u_Email u = email) (users s') = Some user'
               \<and> distinct (map u_ID (users s'))
               \<and> u_FailedLoginAttempts user'
                   = u_FailedLoginAttempts user + int (length attempts)
               \<and> u_LockedUntil user' = None
               \<and> u_PasswordHash user' = u_PasswordHash user
               \<and> u_Status user' = u_Status user)"
  using assms
proof (induction attempts arbitrary: s user rs)
  case Nil
  then show ?case
    by simp
next
  case (Cons a attempts)
  obtain io password ip ua where a: "a = (io, password, ip, ua)"
    by (cases a) auto
  from Cons.prems(8) a have ok:
    "\<not> io_fails io Call_GetByEmail" "\<not> io_fails io Call_IncrementFailedLoginAttempts"
    "\<not> io_fails io Call_LockAccount"
    "Verify lib password (u_PasswordHash user) = Ok False
     \<or> (\<exists>e. Verify lib password (u_PasswordHash user) = Err e)"
    by auto
  have nl: "\<not> IsLocked (io_now io) user"
    using Cons.prems(3) by (simp add: IsLocked_def)
  have small: "u_FailedLoginAttempts user < 2147483647" "1 \<le> cfg_MaxFailedAttempts cfg"
    using Cons.prems(5,6,7) by simp_all
  from Login_wrong_step [OF Cons.prems(1,2) nl Cons.prems(4) ok(4) ok(1,2,3) Cons.prems(5)
      small(1) small(2) Cons.prems(7), of ip ua]
  obtain s1 user1 where
    L: "Login cfg lib io email password ip ua s = (Err ErrInvalidCredentials, s1)"
    and f1: "find (\<lambda>u. u_Email u = email) (users s1) = Some user1"
    and d1: "distinct (map u_ID (users s1))"
    and c1: "u_FailedLoginAttempts user1 = u_FailedLoginAttempts user + 1"
    and l1: "u_LockedUntil user1 =
               (if cfg_MaxFailedAttempts cfg \<le> u_FailedLoginAttempts user + 1
                then Some (io_now io + cfg_LockoutDuration cfg) else u_LockedUntil user)"
    and p1: "u_PasswordHash user1 = u_PasswordHash user"
    and st1: "u_Status user1 = u_Status user"
    by blast
  from l1 Cons.prems(3,6) have l1': "u_LockedUntil user1 = None"
    by simp
  obtain rs1 where rest: "Login_attempts cfg lib email attempts s1 = (rs1, s')"
    and rs: "rs = Err ErrInvalidCredentials # rs1"
    using Cons.prems(9) a L by (auto split: prod.splits)
  have ih: "list_all (\<lambda>r. r = Err ErrInvalidCredentials) rs1
         \<and> (\<exists>user'. find (\<lambda>u. u_Email u = email) (users s') = Some user'
               \<and> distinct (map u_ID (users s'))
               \<and> u_FailedLoginAttempts user'
                   = u_FailedLoginAttempts user1 + int (length attempts)
               \<and> u_LockedUntil user' = None
               \<and> u_PasswordHash user' = u_PasswordHash user1
               \<and> u_Status user' = u_Status user1)"
  proof (rule Cons.IH [OF f1 d1 l1' _ _ _ Cons.prems(7) _ rest])
    show "u_Status user1 = UserStatusActive \<or> u_Status user1 = UserStatusPendingVerification"
      using st1 Cons.prems(4) by simp
    show "0 \<le> u_FailedLoginAttempts user1"
      using c1 Cons.prems(5) by simp
    show "u_FailedLoginAttempts user1 + int (length attempts) < cfg_MaxFailedAttempts cfg"
      using c1 Cons.prems(6) by simp
    show "\<forall>(io, password, ip, ua) \<in> set attempts.
           \<not> io_fails io Call_GetByEmail
           \<and> \<not> io_fails io Call_IncrementFailedLoginAttempts
           \<and> \<not> io_fails io Call_LockAccount
           \<and> (Verify lib password (u_PasswordHash user1) = Ok False
              \<or> (\<exists>e. Verify lib password (u_PasswordHash user1) = Err e))"
      using Cons.prems(8) p1 by simp
  qed
  with rs c1 p1 st1 show ?case
    by auto
qed

lemma login_wrong_alice:
  "Login LoadConfig_default toy_Lib io ''a@x.com'' ''wrong'' [] []
     \<lparr>users = [alice\<lparr>u_FailedLoginAttempts := c, u_UpdatedAt := t\<rparr>],
      refresh_tokens = rts, logged = lg\<rparr>
   = (if io_fails io Call_GetByEmail then
        (Err ErrInvalidCredentials,
         \<lparr>users = [alice\<lparr>u_FailedLoginAttempts := c, u_UpdatedAt := t\<rparr>],
          refresh_tokens = rts, logged = lg\<rparr>)
      else
        (Err ErrInvalidCredentials,
         Login_rejected LoadConfig_default io (alice\<lparr>u_FailedLoginAttempts := c, u_UpdatedAt := t\<rparr>)
           \<lparr>users = [alice\<lparr>u_FailedLoginAttempts := c, u_UpdatedAt := t\<rparr>],
            refresh_tokens = rts, logged = lg\<rparr>))"
  by (simp add: Login_def GetByEmail_def alice_def IsLocked_def verify_wrong)

lemma rejected_alice:
  "0 \<le> c \<Longrightarrow> c < 5 \<Longrightarrow> \<not> io_fails io Call_IncrementFailedLoginAttempts \<Longrightarrow>
   Login_rejected LoadConfig_default io (alice\<lparr>u_FailedLoginAttempts := c, u_UpdatedAt := t\<rparr>)
     \<lparr>users = [alice\<lparr>u_FailedLoginAttempts := c, u_UpdatedAt := t\<rparr>],
      refresh_tokens = rts, logged = lg\<rparr>
   = (if c + 1 < 5 then
        \<lparr>users = [alice\<lparr>u_FailedLoginAttempts := c + 1, u_UpdatedAt := io_now io\<rparr>],
         refresh_tokens = rts, logged = lg\<rparr>
      else if io_fails io Call_LockAccount then
        \<lparr>users = [alice\<lparr>u_FailedLoginAttempts := c + 1, u_UpdatedAt := io_now io\<rparr>],
         refresh_tokens = rts, logged = lg @ [(Error, ''failed to lock account'')]\<rparr>
      else
        \<lparr>users = [alice\<lparr>u_FailedLoginAttempts := c + 1, u_UpdatedAt := io_now io,
                         u_LockedUntil := Some (io_now io + 900000000000)\<rparr>],
         refresh_tokens = rts, logged = lg\<rparr>)"
  by (simp add: Login_rejected_def Let_def IncrementFailedLoginAttempts_def LockAccount_def
        logged_only_def log_Error_def update_user_def alice_def LoadConfig_default_def int32_id)

lemma alice0: "state0 = \<lparr>users = [alice\<lparr>u_FailedLoginAttempts := 0, u_UpdatedAt := 0\<rparr>],
                        refresh_tokens = [], logged = []\<rparr>"
  by (simp add: state0_def alice_def)

lemma five_wrong_run:
  "\<not> io_fails last_io Call_GetByEmail \<Longrightarrow> \<not> io_fails last_io Call_IncrementFailedLoginAttempts \<Longrightarrow>
   Login_attempts LoadConfig_default toy_Lib ''a@x.com'' (five_wrong last_io) state0
   = ([Err ErrInvalidCredentials, Err ErrInvalidCredentials, Err ErrInvalidCredentials,
       Err ErrInvalidCredentials, Err ErrInvalidCredentials],
      if io_fails last_io Call_LockAccount then
        \<lparr>users = [alice\<lparr>u_FailedLoginAttempts := 5, u_UpdatedAt := io_now last_io\<rparr>],
         refresh_tokens = [], logged = [(Error, ''failed to lock account'')]\<rparr>
      else
        \<lparr>users = [alice\<lparr>u_FailedLoginAttempts := 5, u_UpdatedAt := io_now last_io,
                         u_LockedUntil := Some (io_now last_io + 900000000000)\<rparr>],
         refresh_tokens = [], logged = []\<rparr>)"
  unfolding alice0 five_wrong_def
  by (simp add: login_wrong_alice rejected_alice)

lemma io_at_simps:
  "io_now (io_at t) = t" "io_fails (io_at t) c = False"
  "io_uuid_access (io_at t) = ''jti-C''" "io_uuid_refresh (io_at t) = ''jti-D''"
  by (simp_all add: io_at_def io_ok_def)

lemma Verify_Hash_key:
  assumes "io_rand io 16 = Some salt"
    and "argon2_IDKey lib p salt 3 65536 2 32 = Some key"
    and "length key = 32"
  shows "Hash lib io (NewPasswordHasher cfg) p =
           Ok (''$argon2id$v=19$m=65536,t=3,p=2$'' @ EncodeToString salt @ ''$''
               @ EncodeToString key)"
    and "argon2_IDKey lib p' salt 3 65536 2 32 = Some key' \<Longrightarrow>
         Verify lib p'
           (''$argon2id$v=19$m=65536,t=3,p=2$'' @ EncodeToString salt @ ''$''
            @ EncodeToString key) = Ok (key' = key)"
proof -
  show "Hash lib io (NewPasswordHasher cfg) p =
           Ok (''$argon2id$v=19$m=65536,t=3,p=2$'' @ EncodeToString salt @ ''$''
               @ EncodeToString key)"
    by (rule Hash_encoding [OF assms(1,2)])
  show "Verify lib p'
           (''$argon2id$v=19$m=65536,t=3,p=2$'' @ EncodeToString salt @ ''$''
            @ EncodeToString key) = Ok (key' = key)"
    if "argon2_IDKey lib p' salt 3 65536 2 32 = Some key'"
    unfolding Verify_def decodeHash_encoding using that assms(3)
    by (auto simp: ConstantTimeCompare_def)
qed

lemma key_collision:
  fixes f :: "'a \<Rightarrow> byte list"
  assumes "infinite (UNIV :: 'a set)"
    and "\<And>x. length (f x) = 32"
  shows "\<exists>x y. y \<noteq> x \<and> f y = f x"
proof (rule ccontr)
  assume "\<not> (\<exists>x y. y \<noteq> x \<and> f y = f x)"
  then have "inj f"
    by (auto simp: inj_on_def)
  have "range f \<subseteq> {k. set k \<subseteq> UNIV \<and> length k = 32}"
    using assms(2) by auto
  moreover have "finite {k :: byte list. set k \<subseteq> UNIV \<and> length k = 32}"
    by (rule finite_lists_length_eq) simp
  ultimately have "finite (range f)"
    by (rule finite_subset)
  from this \<open>inj f\<close> have "finite (UNIV :: 'a set)"
    by (rule finite_imageD)
  with assms(1) show False
    by simp
qed

lemma classify_lower_again:
  "foldl (classify (toy_Lib\<lparr>argon2_IDKey := k\<rparr>)) (True, True, True, True) (replicate n 97)
   = (True, True, True, True)"
  by (induction n) (simp_all add: classify_def toy_Lib_def)

lemma ValidatePassword_family:
  "ValidatePassword (toy_Lib\<lparr>argon2_IDKey := k\<rparr>) (NewPasswordHasher LoadConfig_default)
     (''Passw0rd!'' @ replicate n CHR ''a'') = None"
proof -
  have "foldl (classify (toy_Lib\<lparr>argon2_IDKey := k\<rparr>)) (False, False, False, False)
          (utf8_runes (toy_Lib\<lparr>argon2_IDKey := k\<rparr>) (''Passw0rd!'' @ replicate n CHR ''a''))
        = foldl (classify (toy_Lib\<lparr>argon2_IDKey := k\<rparr>)) (True, True, True, True) (replicate n 97)"
    by (simp add: toy_Lib_def classify_def)
  then show ?thesis
    by (simp add: ValidatePassword_def classify_lower_again NewPasswordHasher_def
          LoadConfig_default_def)
qed

lemma decode_junk: "decodeHash junk_hash = decodeHash alice_hash"
  unfolding decode_alice
  by (simp add: junk_hash_def decodeHash_def scan_defs DecodeString_def dec6_def
        argon2_Version_def)

lemma decode_zero:
  "decodeHash zero_hash =
     Ok (\<lparr>p_memory = 65536, p_iterations = 0, p_parallelism = 0, p_keyLength = 32\<rparr>,
         [1, 2, 3, 4, 5, 6, 7, 8, 9, 10, 11, 12, 13, 14, 15, 16],
         [80, 97, 115, 115, 119, 48, 114, 100, 33, 0, 0, 0, 0, 0, 0, 0, 0, 0, 0, 0, 0, 0, 0,
          0, 0, 0, 0, 0, 0, 0, 0, 0])"
  by (simp add: zero_hash_def decodeHash_def scan_defs DecodeString_def dec6_def
        argon2_Version_def)

section \<open>The claims\<close>

subsection \<open>C4: a hash verifies its password, and another one exactly when the keys collide\<close>

text \<open>
  C4, as amended. \<^verbatim>\<open>Verify(p, Hash(p))\<close> returns true with no error, for every password
  \<open>p\<close>, inside the policy or not. For another password \<open>p'\<close>, \<^verbatim>\<open>Verify(p', Hash(p))\<close>
  returns no error either, and it returns false unless Argon2id derives for \<open>p'\<close>, under
  the salt and the parameters of the hash, the very key it derived for \<open>p\<close>: then it
  returns true. \<^verbatim>\<open>Hash\<close> is taken where it returns: the random source gives the salt
  and Argon2id gives a key of the 32 bytes asked for.
\<close>

theorem C4_Verify_Hash:
  assumes "io_rand io 16 = Some salt"
    and "argon2_IDKey lib p salt 3 65536 2 32 = Some key"
    and "length key = 32"
  shows "\<exists>enc. Hash lib io (NewPasswordHasher cfg) p = Ok enc
           \<and> Verify lib p enc = Ok True
           \<and> (\<forall>p' key'. argon2_IDKey lib p' salt 3 65536 2 32 = Some key'
                 \<longrightarrow> Verify lib p' enc = Ok (key' = key))"
proof -
  let ?enc = "''$argon2id$v=19$m=65536,t=3,p=2$'' @ EncodeToString salt @ ''$''
              @ EncodeToString key"
  have h: "Hash lib io (NewPasswordHasher cfg) p = Ok ?enc"
    by (rule Verify_Hash_key(1) [OF assms])
  have other: "Verify lib p' ?enc = Ok (key' = key)"
    if "argon2_IDKey lib p' salt 3 65536 2 32 = Some key'" for p' key'
    by (rule Verify_Hash_key(2) [OF assms that])
  from other [OF assms(2)] have same: "Verify lib p ?enc = Ok True"
    by simp
  from h same other show ?thesis
    by blast
qed

theorem C4_Verify_Hash_witness:
  "Hash toy_Lib io_ok (NewPasswordHasher LoadConfig_default) ''Passw0rd!'' = Ok alice_hash
   \<and> Verify toy_Lib ''Passw0rd!'' alice_hash = Ok True
   \<and> Verify toy_Lib ''wrong'' alice_hash = Ok False"
proof -
  let ?salt = "[1, 2, 3, 4, 5, 6, 7, 8, 9, 10, 11, 12, 13, 14, 15, 16] :: byte list"
  let ?key = "[80, 97, 115, 115, 119, 48, 114, 100, 33, 0, 0, 0, 0, 0, 0, 0, 0, 0, 0, 0, 0, 0,
               0, 0, 0, 0, 0, 0, 0, 0, 0, 0] :: byte list"
  let ?key' = "[119, 114, 111, 110, 103, 0, 0, 0, 0, 0, 0, 0, 0, 0, 0, 0, 0, 0, 0, 0, 0, 0,
                0, 0, 0, 0, 0, 0, 0, 0, 0, 0] :: byte list"
  have r: "io_rand io_ok 16 = Some ?salt"
    by (simp add: io_ok_def)
  have k: "argon2_IDKey toy_Lib ''Passw0rd!'' ?salt 3 65536 2 32 = Some ?key"
    by (simp add: toy_Lib_def toy_IDKey_def pad_to.simps)
  have k': "argon2_IDKey toy_Lib ''wrong'' ?salt 3 65536 2 32 = Some ?key'"
    by (simp add: toy_Lib_def toy_IDKey_def pad_to.simps)
  have l: "length ?key = 32"
    by simp
  from C4_Verify_Hash [OF r k l, of LoadConfig_default] obtain enc where
    e: "Hash toy_Lib io_ok (NewPasswordHasher LoadConfig_default) ''Passw0rd!'' = Ok enc"
    and v: "Verify toy_Lib ''Passw0rd!'' enc = Ok True"
    and w: "\<forall>p' key'. argon2_IDKey toy_Lib p' ?salt 3 65536 2 32 = Some key'
              \<longrightarrow> Verify toy_Lib p' enc = Ok (key' = ?key)"
    by blast
  from e have enc: "enc = alice_hash"
    by (simp add: hash_alice)
  from w k' have "Verify toy_Lib ''wrong'' enc = Ok (?key' = ?key)"
    by blast
  then have "Verify toy_Lib ''wrong'' enc = Ok False"
    by simp
  with e v enc show ?thesis
    by simp
qed

text \<open>
  As stated the claim fails: two passwords with one key are not told apart. In the
  example library a password and the same password followed by a zero byte, both
  inside the policy, have one key, and the second verifies against the hash of the
  first. No key derivation avoids it: there are more passwords inside the policy than
  keys of 32 bytes, so whatever \<^verbatim>\<open>argon2.IDKey\<close> computes, some password verifies
  against the hash of another one that the policy admits.
\<close>

theorem C4_counterexample:
  "ValidatePassword toy_Lib (NewPasswordHasher LoadConfig_default) ''Passw0rd!'' = None
   \<and> Hash toy_Lib io_ok (NewPasswordHasher LoadConfig_default) ''Passw0rd!'' = Ok alice_hash
   \<and> ''Passw0rd!'' @ [CHR 0x00] \<noteq> ''Passw0rd!''
   \<and> Verify toy_Lib (''Passw0rd!'' @ [CHR 0x00]) alice_hash = Ok True
   \<and> \<not> (\<exists>k io salt.
           io_rand io 16 = Some salt
           \<and> (\<forall>p. \<exists>key. k p salt 3 65536 2 32 = Some key \<and> length key = 32)
           \<and> (\<forall>p p' enc.
                 ValidatePassword (toy_Lib\<lparr>argon2_IDKey := k\<rparr>)
                   (NewPasswordHasher LoadConfig_default) p = None
                 \<and> p' \<noteq> p
                 \<and> Hash (toy_Lib\<lparr>argon2_IDKey := k\<rparr>) io
                     (NewPasswordHasher LoadConfig_default) p = Ok enc
                 \<longrightarrow> Verify (toy_Lib\<lparr>argon2_IDKey := k\<rparr>) p' enc = Ok False))"
proof -
  have zero: "ValidatePassword toy_Lib (NewPasswordHasher LoadConfig_default) ''Passw0rd!'' = None"
    using ValidatePassword_family [of toy_IDKey 0] by (simp add: toy_Lib_def)
  have one: "Hash toy_Lib io_ok (NewPasswordHasher LoadConfig_default) ''Passw0rd!'' = Ok alice_hash"
    by (rule hash_alice)
  have two: "''Passw0rd!'' @ [CHR 0x00] \<noteq> ''Passw0rd!''"
    by simp
  have three: "Verify toy_Lib (''Passw0rd!'' @ [CHR 0x00]) alice_hash = Ok True"
    unfolding Verify_def decode_alice
    by (simp add: toy_Lib_def toy_IDKey_def pad_to.simps ConstantTimeCompare_def)
  have four: "\<not> (\<exists>k io salt.
           io_rand io 16 = Some salt
           \<and> (\<forall>p. \<exists>key. k p salt 3 65536 2 32 = Some key \<and> length key = 32)
           \<and> (\<forall>p p' enc.
                 ValidatePassword (toy_Lib\<lparr>argon2_IDKey := k\<rparr>)
                   (NewPasswordHasher LoadConfig_default) p = None
                 \<and> p' \<noteq> p
                 \<and> Hash (toy_Lib\<lparr>argon2_IDKey := k\<rparr>) io
                     (NewPasswordHasher LoadConfig_default) p = Ok enc
                 \<longrightarrow> Verify (toy_Lib\<lparr>argon2_IDKey := k\<rparr>) p' enc = Ok False))"
  proof
    assume "\<exists>k io salt.
           io_rand io 16 = Some salt
           \<and> (\<forall>p. \<exists>key. k p salt 3 65536 2 32 = Some key \<and> length key = 32)
           \<and> (\<forall>p p' enc.
                 ValidatePassword (toy_Lib\<lparr>argon2_IDKey := k\<rparr>)
                   (NewPasswordHasher LoadConfig_default) p = None
                 \<and> p' \<noteq> p
                 \<and> Hash (toy_Lib\<lparr>argon2_IDKey := k\<rparr>) io
                     (NewPasswordHasher LoadConfig_default) p = Ok enc
                 \<longrightarrow> Verify (toy_Lib\<lparr>argon2_IDKey := k\<rparr>) p' enc = Ok False)"
    then obtain k io salt where r: "io_rand io 16 = Some salt"
      and keys: "\<And>p. \<exists>key. k p salt 3 65536 2 32 = Some key \<and> length key = 32"
      and apart: "\<And>p p' enc.
                    ValidatePassword (toy_Lib\<lparr>argon2_IDKey := k\<rparr>)
                      (NewPasswordHasher LoadConfig_default) p = None
                    \<Longrightarrow> p' \<noteq> p
                    \<Longrightarrow> Hash (toy_Lib\<lparr>argon2_IDKey := k\<rparr>) io
                          (NewPasswordHasher LoadConfig_default) p = Ok enc
                    \<Longrightarrow> Verify (toy_Lib\<lparr>argon2_IDKey := k\<rparr>) p' enc = Ok False"
      by blast
    let ?lib = "toy_Lib\<lparr>argon2_IDKey := k\<rparr>"
    define pw where "pw n = ''Passw0rd!'' @ replicate n CHR ''a''" for n :: nat
    define f where "f n = the (k (pw n) salt 3 65536 2 32)" for n
    have fk: "argon2_IDKey ?lib (pw n) salt 3 65536 2 32 = Some (f n)"
      and fl: "length (f n) = 32" for n
      using keys [of "pw n"] by (auto simp: f_def)
    have "infinite (UNIV :: nat set)"
      by simp
    from key_collision [of f, OF this fl] obtain n m where nm: "m \<noteq> n" and eq: "f m = f n"
      by blast
    from nm have ne: "pw m \<noteq> pw n"
      by (auto simp: pw_def dest: arg_cong [where f = length])
    have valid: "ValidatePassword ?lib (NewPasswordHasher LoadConfig_default) (pw n) = None"
      unfolding pw_def by (rule ValidatePassword_family)
    let ?enc = "''$argon2id$v=19$m=65536,t=3,p=2$'' @ EncodeToString salt @ ''$''
                @ EncodeToString (f n)"
    have h: "Hash ?lib io (NewPasswordHasher LoadConfig_default) (pw n) = Ok ?enc"
      by (rule Verify_Hash_key(1) [OF r fk [of n] fl [of n]])
    from Verify_Hash_key(2) [OF r fk [of n] fl [of n] fk [of m]] eq
    have "Verify ?lib (pw m) ?enc = Ok True"
      by simp
    moreover from apart [OF valid ne h] have "Verify ?lib (pw m) ?enc = Ok False" .
    ultimately show False
      by simp
  qed
  from zero one two three four show ?thesis
    by (intro conjI)
qed

subsection \<open>C7: a wrong current password changes nothing\<close>

text \<open>
  C7. For every user the store returns and every current password that does not verify
  against the stored hash (\<^verbatim>\<open>Verify\<close> returns false, or returns an error),
  \<^verbatim>\<open>ChangePassword\<close> returns \<^verbatim>\<open>ErrInvalidCredentials\<close> and leaves the state as it
  was: the stored hash is the same and no refresh token is revoked.
\<close>

theorem C7_ChangePassword_wrong_current:
  assumes "GetByID io s userID = Inr user"
    and "Verify lib currentPassword (u_PasswordHash user) = Ok False
         \<or> (\<exists>e. Verify lib currentPassword (u_PasswordHash user) = Err e)"
  shows "ChangePassword cfg lib io userID currentPassword newPassword s
           = (Err ErrInvalidCredentials, s)"
  using assms by (auto simp: ChangePassword_def)

lemma getbyid_alice: "GetByID io_ok state1 1 = Inr alice"
  by (simp add: GetByID_def io_ok_def state1_def alice_def)

theorem C7_ChangePassword_wrong_current_witness:
  "ChangePassword LoadConfig_default toy_Lib io_ok 1 ''wrong'' ''N3wPassword'' state1
     = (Err ErrInvalidCredentials, state1)"
proof -
  have "Verify toy_Lib ''wrong'' (u_PasswordHash alice) = Ok False"
    by (simp add: alice_def verify_wrong)
  then show ?thesis
    using C7_ChangePassword_wrong_current [OF getbyid_alice, of toy_Lib "''wrong''"] by blast
qed

subsection \<open>C9: an unknown email and a wrong password answer alike, on a loginable account\<close>

text \<open>
  C9, as amended. \<^verbatim>\<open>Login\<close> with an email that no user record carries and \<^verbatim>\<open>Login\<close>
  with the email of an existing account and a password that does not verify both fail
  with \<^verbatim>\<open>ErrInvalidCredentials\<close>, provided the existing account is not locked and its
  status is active or pending verification.
\<close>

theorem C9_same_error_when_loginable:
  assumes "\<not> list_ex (\<lambda>u. u_Email u = email1) (users s1)"
    and "GetByEmail io2 s2 email2 = Inr user"
    and "\<not> IsLocked (io_now io2) user"
    and "u_Status user = UserStatusActive \<or> u_Status user = UserStatusPendingVerification"
    and "Verify lib password2 (u_PasswordHash user) = Ok False
         \<or> (\<exists>e. Verify lib password2 (u_PasswordHash user) = Err e)"
  shows "fst (Login cfg lib io1 email1 password1 ip1 ua1 s1) = Err ErrInvalidCredentials
         \<and> fst (Login cfg lib io2 email2 password2 ip2 ua2 s2) = Err ErrInvalidCredentials"
proof -
  have "find (\<lambda>u. u_Email u = email1) (users s1) = None"
    using assms(1) by (simp add: find_None_iff list_ex_iff)
  then have "GetByEmail io1 s1 email1 = Inl ErrDatabase \<or> GetByEmail io1 s1 email1 = Inl ErrUserNotFound"
    by (simp add: GetByEmail_def)
  then have one: "fst (Login cfg lib io1 email1 password1 ip1 ua1 s1) = Err ErrInvalidCredentials"
    by (auto simp: Login_def)
  have two: "fst (Login cfg lib io2 email2 password2 ip2 ua2 s2) = Err ErrInvalidCredentials"
    using assms(2-5) by (auto simp: Login_def)
  from one two show ?thesis ..
qed

theorem C9_same_error_when_loginable_witness:
  "fst (Login LoadConfig_default toy_Lib io_ok ''nobody@x.com'' ''wrong'' [] [] state0)
     = Err ErrInvalidCredentials
   \<and> fst (Login LoadConfig_default toy_Lib io_ok ''a@x.com'' ''wrong'' [] [] state0)
     = Err ErrInvalidCredentials"
proof -
  have a: "\<not> list_ex (\<lambda>u. u_Email u = ''nobody@x.com'') (users state0)"
    by (simp add: state0_def alice_def)
  have b: "GetByEmail io_ok state0 ''a@x.com'' = Inr alice"
    by (simp add: GetByEmail_def state0_def alice_def io_ok_def)
  have c: "\<not> IsLocked (io_now io_ok) alice"
    by (simp add: IsLocked_def alice_def)
  have d: "u_Status alice = UserStatusActive \<or> u_Status alice = UserStatusPendingVerification"
    by (simp add: alice_def)
  have e: "Verify toy_Lib ''wrong'' (u_PasswordHash alice) = Ok False
           \<or> (\<exists>e. Verify toy_Lib ''wrong'' (u_PasswordHash alice) = Err e)"
    by (simp add: alice_def verify_wrong)
  show ?thesis
    by (rule C9_same_error_when_loginable [OF a b c d e])
qed


text \<open>
  As stated the claim fails: the lock and the status are looked at before the password,
  so a locked account answers \<^verbatim>\<open>ErrAccountLocked\<close> where an unknown email answers
  \<^verbatim>\<open>ErrInvalidCredentials\<close>.
\<close>

theorem C9_counterexample:
  "fst (Login LoadConfig_default toy_Lib io_ok ''nobody@x.com'' ''wrong'' [] [] state_locked)
     = Err ErrInvalidCredentials
   \<and> fst (Login LoadConfig_default toy_Lib io_ok ''a@x.com'' ''wrong'' [] [] state_locked)
     = Err ErrAccountLocked"
  by (simp add: Login_def GetByEmail_def state_locked_def alice_def io_ok_def IsLocked_def)

subsection \<open>C8: logout revokes the presented token and nothing else\<close>




subsection \<open>C10: a login whose refresh token could not be stored still succeeds\<close>

text \<open>
  C10. If the lookup by email, the lock check, the status check and the password
  verification of \<^verbatim>\<open>Login\<close> succeed, the token pair is generated, and the \<^verbatim>\<open>Create\<close> call
  of the refresh-token store fails (on the tables as \<^verbatim>\<open>Login\<close> found them: resetting the
  counter changes nothing \<^verbatim>\<open>Create\<close> looks at), then \<^verbatim>\<open>Login\<close> returns the pair and the user
  with no error, the token table is what it was and the failure is a line of the log.
  The refresh token it returned cannot be redeemed in any state whose table has no row
  with its hash, at any time: \<^verbatim>\<open>RefreshTokens\<close> fails and changes nothing.
\<close>

theorem C10_Login_swallows_Create_failure:
  assumes "GetByEmail io s email = Inr user"
    and "\<not> IsLocked (io_now io) user"
    and "u_Status user = UserStatusActive \<or> u_Status user = UserStatusPendingVerification"
    and "Verify lib password (u_PasswordHash user) = Ok True"
    and "GenerateTokenPair cfg lib io (u_ID user) (u_Email user) (u_EmailVerified user)
           (UserRole_string (u_Role user)) = Ok tokenPair"
    and "fst (Create io s (u_ID user) (HashToken lib (tp_RefreshToken tokenPair))
                (io_now io + cfg_RefreshTokenDuration cfg) None
                (if ipAddress \<noteq> [] then Some ipAddress else None)
                (if userAgent \<noteq> [] then Some userAgent else None)) = Inl e"
    and "Login cfg lib io email password ipAddress userAgent s = (res, s')"
  shows "res = Ok (tokenPair, user)
         \<and> refresh_tokens s' = refresh_tokens s
         \<and> (Error, ''failed to store refresh token'') \<in> set (logged s')
         \<and> (\<forall>io' s''. \<not> list_ex (\<lambda>r. rt_TokenHash r = HashToken lib (tp_RefreshToken tokenPair))
                          (refresh_tokens s'')
               \<longrightarrow> (\<exists>e'. RefreshTokens cfg lib io' (tp_RefreshToken tokenPair) s'' = (Err e', s'')))"
proof -
  have "Login cfg lib io email password ipAddress userAgent s
          = Login_accepted cfg lib io user ipAddress userAgent s"
    using assms(1-4) by (auto simp: Login_def)
  with assms(7) have "Login_accepted cfg lib io user ipAddress userAgent s = (res, s')"
    by simp
  from Login_accepted_Create_fails [OF assms(5,6) this] RefreshTokens_unknown_hash
  show ?thesis
    by blast
qed

theorem C10_Login_swallows_Create_failure_witness:
  "fst (Login LoadConfig_default toy_Lib (io_failing Call_Create) ''a@x.com'' ''Passw0rd!''
          ''10.0.0.1'' ''curl'' state0)
     = Ok (\<lparr>tp_AccessToken = ''tokC'', tp_RefreshToken = ''tokD'',
             tp_ExpiresAt = 1900000000000, tp_TokenType = ''Bearer''\<rparr>, alice)
   \<and> refresh_tokens (snd (Login LoadConfig_default toy_Lib (io_failing Call_Create) ''a@x.com''
                             ''Passw0rd!'' ''10.0.0.1'' ''curl'' state0)) = []
   \<and> (Error, ''failed to store refresh token'')
       \<in> set (logged (snd (Login LoadConfig_default toy_Lib (io_failing Call_Create) ''a@x.com''
                             ''Passw0rd!'' ''10.0.0.1'' ''curl'' state0)))
   \<and> fst (RefreshTokens LoadConfig_default toy_Lib io_ok ''tokD''
            (snd (Login LoadConfig_default toy_Lib (io_failing Call_Create) ''a@x.com''
                   ''Passw0rd!'' ''10.0.0.1'' ''curl'' state0)))
     = Err ErrInvalidToken"
proof -
  let ?io = "io_failing Call_Create"
  let ?pair = "\<lparr>tp_AccessToken = ''tokC'', tp_RefreshToken = ''tokD'',
                 tp_ExpiresAt = 1900000000000, tp_TokenType = ''Bearer''\<rparr>"
  obtain res s' where L: "Login LoadConfig_default toy_Lib ?io ''a@x.com'' ''Passw0rd!''
          ''10.0.0.1'' ''curl'' state0 = (res, s')"
    by (cases "Login LoadConfig_default toy_Lib ?io ''a@x.com'' ''Passw0rd!''
          ''10.0.0.1'' ''curl'' state0") blast
  have a: "GetByEmail ?io state0 ''a@x.com'' = Inr alice"
    by (simp add: GetByEmail_def state0_def alice_def io_failing_def io_ok_def)
  have b: "\<not> IsLocked (io_now ?io) alice"
    by (simp add: IsLocked_def alice_def)
  have c: "u_Status alice = UserStatusActive \<or> u_Status alice = UserStatusPendingVerification"
    by (simp add: alice_def)
  have d: "Verify toy_Lib ''Passw0rd!'' (u_PasswordHash alice) = Ok True"
    by (simp add: alice_def verify_alice)
  have g: "GenerateTokenPair LoadConfig_default toy_Lib ?io (u_ID alice) (u_Email alice)
             (u_EmailVerified alice) (UserRole_string (u_Role alice)) = Ok ?pair"
    by (simp add: io_failing_def alice_def generate_alice)
  have f: "fst (Create ?io state0 (u_ID alice) (HashToken toy_Lib (tp_RefreshToken ?pair))
                (io_now ?io + cfg_RefreshTokenDuration LoadConfig_default) None
                (if ''10.0.0.1'' \<noteq> [] then Some ''10.0.0.1'' else None)
                (if ''curl'' \<noteq> [] then Some ''curl'' else None)) = Inl ErrDatabase"
    by (simp add: Create_def io_failing_def)
  note c10 = C10_Login_swallows_Create_failure [OF a b c d g f L]
  then have r: "res = Ok (?pair, alice)" and t: "refresh_tokens s' = refresh_tokens state0"
    and l: "(Error, ''failed to store refresh token'') \<in> set (logged s')"
    and n: "\<forall>io' s''. \<not> list_ex (\<lambda>r. rt_TokenHash r = HashToken toy_Lib (tp_RefreshToken ?pair))
                          (refresh_tokens s'')
               \<longrightarrow> (\<exists>e'. RefreshTokens LoadConfig_default toy_Lib io' (tp_RefreshToken ?pair) s'' = (Err e', s''))"
    by blast+
  from t have t': "refresh_tokens s' = []"
    by (simp add: state0_def)
  have "fst (RefreshTokens LoadConfig_default toy_Lib io_ok ''tokD'' s') = Err ErrInvalidToken"
    by (simp add: RefreshTokens_def VerifyRefreshToken_def verifyToken_def toy_Lib_def
          toy_ParseSigned_def LoadConfig_default_def claims_defs io_ok_def VerifyAudience_def
          GetByHash_def t' Let_def)
  with L r t' l show ?thesis
    by simp
qed

subsection \<open>C5: a token of the other type is refused\<close>

text \<open>
  C5, as amended. The key pair matches: what \<^verbatim>\<open>SignedString\<close> signs, the parser gives
  back. Then for every pair \<^verbatim>\<open>GenerateTokenPair\<close> produces and at every time,
  \<^verbatim>\<open>VerifyRefreshToken\<close> refuses the access token and \<^verbatim>\<open>VerifyAccessToken\<close> refuses the
  refresh token: with \<^verbatim>\<open>ErrInvalidToken\<close> before the token's expiry (truncated to the
  second) and with \<^verbatim>\<open>ErrTokenExpired\<close> from then on. Neither is ever accepted.
\<close>

theorem C5_type_confusion_rejected:
  assumes "\<And>c t. jwt_SignedString lib (cfg_PrivateKey cfg) c = Some t
             \<Longrightarrow> jwt_ParseSigned lib (cfg_PublicKey cfg) t = Some c"
    and "GenerateTokenPair cfg lib io userID email emailVerified role = Ok pair"
  shows "VerifyRefreshToken cfg lib now (tp_AccessToken pair)
           = Err (if NewNumericDate (io_now io + cfg_AccessTokenDuration cfg) \<le> now
                  then ErrTokenExpired else ErrInvalidToken)
         \<and> VerifyAccessToken cfg lib now (tp_RefreshToken pair)
           = Err (if NewNumericDate (io_now io + cfg_RefreshTokenDuration cfg) \<le> now
                  then ErrTokenExpired else ErrInvalidToken)"
proof -
  let ?base = "\<lparr>c_Issuer = cfg_Issuer cfg, c_Subject = show_int userID,
                c_Audience = [cfg_Audience cfg],
                c_ExpiresAt = Some (NewNumericDate (io_now io + cfg_AccessTokenDuration cfg)),
                c_NotBefore = None, c_IssuedAt = Some (NewNumericDate (io_now io)),
                c_ID = io_uuid_access io, c_UserID = userID, c_Email = email,
                c_EmailVerified = emailVerified, c_Role = role,
                c_TokenType = TokenType_string TokenTypeAccess\<rparr>"
  let ?ac = ?base
  let ?rc = "?base\<lparr>c_ExpiresAt := Some (NewNumericDate (io_now io + cfg_RefreshTokenDuration cfg)),
                     c_ID := io_uuid_refresh io,
                     c_TokenType := TokenType_string TokenTypeRefresh\<rparr>"
  from assms(2) have sa: "jwt_SignedString lib (cfg_PrivateKey cfg) ?ac = Some (tp_AccessToken pair)"
    and sr: "jwt_SignedString lib (cfg_PrivateKey cfg) ?rc = Some (tp_RefreshToken pair)"
    by (auto simp: GenerateTokenPair_def Let_def split: option.splits)
  from assms(1) [OF sa] have pa: "jwt_ParseSigned lib (cfg_PublicKey cfg) (tp_AccessToken pair) = Some ?ac" .
  from assms(1) [OF sr] have pr: "jwt_ParseSigned lib (cfg_PublicKey cfg) (tp_RefreshToken pair) = Some ?rc" .
  have one: "VerifyRefreshToken cfg lib now (tp_AccessToken pair)
           = Err (if NewNumericDate (io_now io + cfg_AccessTokenDuration cfg) \<le> now
                  then ErrTokenExpired else ErrInvalidToken)"
    by (simp add: VerifyRefreshToken_def verifyToken_def pa not_less)
  have two: "VerifyAccessToken cfg lib now (tp_RefreshToken pair)
           = Err (if NewNumericDate (io_now io + cfg_RefreshTokenDuration cfg) \<le> now
                  then ErrTokenExpired else ErrInvalidToken)"
    by (simp add: VerifyAccessToken_def verifyToken_def pr not_less)
  from one two show ?thesis ..
qed

theorem C5_type_confusion_rejected_witness:
  "VerifyRefreshToken LoadConfig_default toy_Lib 1000000000001 ''tokC'' = Err ErrInvalidToken
   \<and> VerifyAccessToken LoadConfig_default toy_Lib 1000000000001 ''tokD'' = Err ErrInvalidToken"
  using C5_type_confusion_rejected [OF toy_sign_parse generate_alice, of 1000000000001]
  by (simp add: NewNumericDate_def io_ok_def LoadConfig_default_def)

text \<open>
  As stated the claim fails: expiry is reported by the parser, before the type is
  compared, so the access token presented as a refresh token at its expiry fails with
  \<^verbatim>\<open>ErrTokenExpired\<close>, not with \<^verbatim>\<open>ErrInvalidToken\<close>.
\<close>

theorem C5_counterexample:
  "GenerateTokenPair LoadConfig_default toy_Lib io_ok 1 ''a@x.com'' False ''user''
     = Ok \<lparr>tp_AccessToken = ''tokC'', tp_RefreshToken = ''tokD'',
           tp_ExpiresAt = 1900000000000, tp_TokenType = ''Bearer''\<rparr>
   \<and> VerifyRefreshToken LoadConfig_default toy_Lib 1900000000000 ''tokC'' = Err ErrTokenExpired"
proof
  show "VerifyRefreshToken LoadConfig_default toy_Lib 1900000000000 ''tokC'' = Err ErrTokenExpired"
    by (simp add: VerifyRefreshToken_def verifyToken_def toy_Lib_def toy_ParseSigned_def
          LoadConfig_default_def claims_defs)
qed (rule generate_alice)

subsection \<open>C6: malformed encodings that \<^verbatim>\<open>decodeHash\<close> lets through\<close>

text \<open>
  C6 asks that every malformed encoded hash makes \<^verbatim>\<open>Verify\<close> return a decode error,
  never a match. \<^verbatim>\<open>decodeHash\<close> checks the number of parts, the algorithm, the version
  and what \<^verbatim>\<open>Sscanf\<close> and the base64 decoder report, and misses three cases. It never
  looks at the part before the first dollar sign; \<^verbatim>\<open>Sscanf\<close> does not read what follows
  the last number, so \<^verbatim>\<open>v=19abc\<close> and \<^verbatim>\<open>p=2xyz\<close> scan; and the numbers are not checked,
  so \<^verbatim>\<open>t=0\<close> and \<^verbatim>\<open>p=0\<close> reach \<^verbatim>\<open>argon2.IDKey\<close>, which panics on them. The first string
  below is malformed in the first two ways; it decodes to what the well-formed hash
  decodes to, so \<^verbatim>\<open>Verify\<close> answers for it as for that hash, with any library: a match
  for the right password. The second one decodes with zero iterations and zero threads,
  and \<^verbatim>\<open>Verify\<close> panics in the example library as it does with Argon2id.
\<close>

theorem C6_malformed_accepted:
  "decodeHash junk_hash = decodeHash alice_hash
   \<and> (\<forall>lib password. Verify lib password junk_hash = Verify lib password alice_hash)
   \<and> Verify toy_Lib ''Passw0rd!'' junk_hash = Ok True
   \<and> decodeHash zero_hash =
       Ok (\<lparr>p_memory = 65536, p_iterations = 0, p_parallelism = 0, p_keyLength = 32\<rparr>,
           [1, 2, 3, 4, 5, 6, 7, 8, 9, 10, 11, 12, 13, 14, 15, 16],
           [80, 97, 115, 115, 119, 48, 114, 100, 33, 0, 0, 0, 0, 0, 0, 0, 0, 0, 0, 0, 0, 0, 0,
            0, 0, 0, 0, 0, 0, 0, 0, 0])
   \<and> Verify toy_Lib ''Passw0rd!'' zero_hash = Panic"
proof (intro conjI allI)
  show "decodeHash junk_hash = decodeHash alice_hash"
    by (rule decode_junk)
  show "Verify lib password junk_hash = Verify lib password alice_hash" for lib password
    by (simp add: Verify_def decode_junk)
  show "Verify toy_Lib ''Passw0rd!'' junk_hash = Ok True"
    by (simp add: Verify_def decode_junk verify_alice [unfolded Verify_def])
  show "Verify toy_Lib ''Passw0rd!'' zero_hash = Panic"
    unfolding Verify_def decode_zero by (simp add: toy_Lib_def toy_IDKey_def)
qed (rule decode_zero)

subsection \<open>C1: a revoked token presented again revokes the user's tokens\<close>

text \<open>
  C1, as amended. Let \<open>t\<close> pass \<^verbatim>\<open>VerifyRefreshToken\<close> and let the store find a row for
  its hash that is marked revoked. Then \<^verbatim>\<open>RefreshTokens\<close> returns \<^verbatim>\<open>ErrInvalidToken\<close>,
  leaves the users alone and calls \<^verbatim>\<open>RevokeAllForUser\<close> for the user of the claims. When
  that call does not fail, every row of that user is revoked afterwards, and a later
  refresh attempt, at any time, with any token whose stored rows belonged to that user
  fails. When the call fails, the failure is a line of the log and the token table is
  what it was.
\<close>

theorem C1_reuse_revokes_all:
  assumes "VerifyRefreshToken cfg lib (io_now io) t = Ok claims"
    and "GetByHash io s (HashToken lib t) = Inr stored"
    and "rt_Revoked stored"
    and "RefreshTokens cfg lib io t s = (res, s')"
  shows "res = Err ErrInvalidToken
         \<and> users s' = users s
         \<and> (\<not> io_fails io Call_RevokeAllForUser \<longrightarrow>
              list_all (\<lambda>r. rt_UserID r = c_UserID claims \<longrightarrow> rt_Revoked r) (refresh_tokens s')
              \<and> (\<forall>io' t'.
                    list_all (\<lambda>r. rt_TokenHash r = HashToken lib t' \<longrightarrow> rt_UserID r = c_UserID claims)
                      (refresh_tokens s)
                    \<longrightarrow> (\<exists>e. fst (RefreshTokens cfg lib io' t' s') = Err e)))
         \<and> (io_fails io Call_RevokeAllForUser \<longrightarrow>
              refresh_tokens s' = refresh_tokens s
              \<and> (Error, ''failed to revoke all tokens after reuse detection'') \<in> set (logged s'))"
proof -
  let ?uid = "c_UserID claims"
  let ?f = "\<lambda>r. if rt_UserID r = ?uid \<and> \<not> rt_Revoked r then revoke_row (io_now io) r else r"
  from assms have res: "res = Err ErrInvalidToken"
    and s': "s' = logged_only ''failed to revoke all tokens after reuse detection''
                    (RevokeAllForUser io s ?uid)"
    by (simp_all add: RefreshTokens_def)
  have us: "users s' = users s"
    unfolding s' by (simp add: RevokeAllForUser_def)
  have ok: "list_all (\<lambda>r. rt_UserID r = ?uid \<longrightarrow> rt_Revoked r) (refresh_tokens s')
            \<and> (\<forall>io' t'.
                  list_all (\<lambda>r. rt_TokenHash r = HashToken lib t' \<longrightarrow> rt_UserID r = ?uid)
                    (refresh_tokens s)
                  \<longrightarrow> (\<exists>e. fst (RefreshTokens cfg lib io' t' s') = Err e))"
    if nf: "\<not> io_fails io Call_RevokeAllForUser"
  proof (intro conjI allI impI)
    from nf have rows: "refresh_tokens s' = map ?f (refresh_tokens s)"
      unfolding s' by (simp add: RevokeAllForUser_def)
    show "list_all (\<lambda>r. rt_UserID r = ?uid \<longrightarrow> rt_Revoked r) (refresh_tokens s')"
      unfolding rows by (auto simp: list_all_iff revoke_row_def)
    fix io' t'
    assume own: "list_all (\<lambda>r. rt_TokenHash r = HashToken lib t' \<longrightarrow> rt_UserID r = ?uid)
                   (refresh_tokens s)"
    have "rt_Revoked r'" if "r' \<in> set (refresh_tokens s')" and "rt_TokenHash r' = HashToken lib t'" for r'
    proof -
      from that(1) obtain r where r: "r \<in> set (refresh_tokens s)" and r': "r' = ?f r"
        unfolding rows by auto
      from r' that(2) have "rt_TokenHash r = HashToken lib t'"
        by (simp add: revoke_row_def split: if_splits)
      with own r have "rt_UserID r = ?uid"
        by (simp add: list_all_iff)
      with r' show ?thesis
        by (simp add: revoke_row_def)
    qed
    then show "\<exists>e. fst (RefreshTokens cfg lib io' t' s') = Err e"
      by (rule RefreshTokens_revoked_row)
  qed
  have bad: "refresh_tokens s' = refresh_tokens s
             \<and> (Error, ''failed to revoke all tokens after reuse detection'') \<in> set (logged s')"
    if "io_fails io Call_RevokeAllForUser"
    unfolding s' using that
    by (simp add: RevokeAllForUser_def logged_only_def log_Error_def)
  from res us ok bad show ?thesis
    by blast
qed


theorem C1_reuse_revokes_all_witness:
  "fst (RefreshTokens LoadConfig_default toy_Lib io_ok ''tokA'' state1) = Err ErrInvalidToken
   \<and> list_all (\<lambda>r. rt_UserID r = 1 \<longrightarrow> rt_Revoked r)
       (refresh_tokens (snd (RefreshTokens LoadConfig_default toy_Lib io_ok ''tokA'' state1)))
   \<and> (\<exists>e. fst (RefreshTokens LoadConfig_default toy_Lib io_ok ''tokB''
                 (snd (RefreshTokens LoadConfig_default toy_Lib io_ok ''tokA'' state1))) = Err e)"
proof -
  obtain res s' where R: "RefreshTokens LoadConfig_default toy_Lib io_ok ''tokA'' state1 = (res, s')"
    by (cases "RefreshTokens LoadConfig_default toy_Lib io_ok ''tokA'' state1") blast
  have v: "VerifyRefreshToken LoadConfig_default toy_Lib (io_now io_ok) ''tokA'' = Ok claimsA"
    by (simp add: verify_tokA)
  have g: "GetByHash io_ok state1 (HashToken toy_Lib ''tokA'') = Inr rowA"
    by (simp add: hash_tok getbyhash_state1)
  have r: "rt_Revoked rowA"
    by (simp add: rowA_def)
  have nf: "\<not> io_fails io_ok Call_RevokeAllForUser"
    by simp
  have own: "list_all (\<lambda>r. rt_TokenHash r = HashToken toy_Lib ''tokB'' \<longrightarrow> rt_UserID r = c_UserID claimsA)
               (refresh_tokens state1)"
    by (simp add: state1_def rowA_def rowB_def claims_defs)
  from C1_reuse_revokes_all [OF v g r R] nf own
  have "res = Err ErrInvalidToken"
    and "list_all (\<lambda>r. rt_UserID r = c_UserID claimsA \<longrightarrow> rt_Revoked r) (refresh_tokens s')"
    and "\<exists>e. fst (RefreshTokens LoadConfig_default toy_Lib io_ok ''tokB'' s') = Err e"
    by blast+
  with R show ?thesis
    by (simp add: claims_defs)
qed

text \<open>
  As stated the claim fails: the error of \<^verbatim>\<open>RevokeAllForUser\<close> is only logged. When
  that call fails, the reused token is still answered with \<^verbatim>\<open>ErrInvalidToken\<close>, no row
  is revoked, and the user's other token is redeemed afterwards.
\<close>

theorem C1_counterexample:
  "VerifyRefreshToken LoadConfig_default toy_Lib (io_now (io_failing Call_RevokeAllForUser)) ''tokA''
     = Ok claimsA
   \<and> GetByHash (io_failing Call_RevokeAllForUser) state1 (HashToken toy_Lib ''tokA'') = Inr rowA
   \<and> rt_Revoked rowA
   \<and> fst (RefreshTokens LoadConfig_default toy_Lib (io_failing Call_RevokeAllForUser) ''tokA''
            state1) = Err ErrInvalidToken
   \<and> refresh_tokens (snd (RefreshTokens LoadConfig_default toy_Lib
                              (io_failing Call_RevokeAllForUser) ''tokA'' state1))
     = [rowA, rowB]
   \<and> rt_UserID rowB = c_UserID claimsA
   \<and> fst (RefreshTokens LoadConfig_default toy_Lib io_ok ''tokB''
            (snd (RefreshTokens LoadConfig_default toy_Lib
                    (io_failing Call_RevokeAllForUser) ''tokA'' state1)))
     = Ok \<lparr>tp_AccessToken = ''tokC'', tp_RefreshToken = ''tokD'',
           tp_ExpiresAt = 1900000000000, tp_TokenType = ''Bearer''\<rparr>"
proof -
  let ?io = "io_failing Call_RevokeAllForUser"
  have first: "RefreshTokens LoadConfig_default toy_Lib ?io ''tokA'' state1
          = (Err ErrInvalidToken,
             log_Error ''failed to revoke all tokens after reuse detection'' state1)"
    by (simp add: RefreshTokens_def verify_tokA hash_tok getbyhash_state1 rowA_def
          RevokeAllForUser_def logged_only_def)
  have g: "GetByHash io_ok (log_Error ''failed to revoke all tokens after reuse detection'' state1)
             ''746f6b42'' = Inr rowB"
    by (simp add: GetByHash_def state1_def rowA_def rowB_def log_Error_def)
  have second: "fst (RefreshTokens LoadConfig_default toy_Lib io_ok ''tokB''
                  (log_Error ''failed to revoke all tokens after reuse detection'' state1))
     = Ok \<lparr>tp_AccessToken = ''tokC'', tp_RefreshToken = ''tokD'',
           tp_ExpiresAt = 1900000000000, tp_TokenType = ''Bearer''\<rparr>"
    by (simp add: RefreshTokens_def verify_tokB hash_tok g generate_claimsB Let_def rowB_def
          split: prod.splits sum.splits)
  show ?thesis
    unfolding first
    by (simp add: verify_tokA hash_tok getbyhash_state1 second)
       (simp add: rowA_def rowB_def claims_defs state1_def)
qed

subsection \<open>C2: a rotated refresh token is not redeemed again\<close>

text \<open>
  C2, as amended. After a successful \<^verbatim>\<open>RefreshTokens(t)\<close> whose \<^verbatim>\<open>Revoke\<close> call did not
  fail, a second \<^verbatim>\<open>RefreshTokens(t)\<close> on the state the first one left fails, whenever it
  is made and whatever fails in it: with \<^verbatim>\<open>ErrTokenExpired\<close> once the token has reached
  its expiry and with \<^verbatim>\<open>ErrInvalidToken\<close> before. So the two calls succeed at most once.
\<close>

theorem C2_rotation_single_use:
  assumes "RefreshTokens cfg lib io1 t s = (Ok pair, s1)"
    and "\<not> io_fails io1 Call_Revoke"
  shows "\<exists>claims.
           jwt_ParseSigned lib (cfg_PublicKey cfg) t = Some claims
           \<and> fst (RefreshTokens cfg lib io2 t s1)
               = Err (if (case c_ExpiresAt claims of None \<Rightarrow> False | Some exp \<Rightarrow> exp \<le> io_now io2)
                      then ErrTokenExpired else ErrInvalidToken)"
proof -
  let ?h = "HashToken lib t"
  from RefreshTokens_Ok [OF assms(1)] obtain claims stored where
    v: "VerifyRefreshToken cfg lib (io_now io1) t = Ok claims"
    and g: "GetByHash io1 s ?h = Inr stored"
    and rows1: "refresh_tokens s1 = refresh_tokens
                (snd (Create io1
                       (logged_only ''failed to revoke old refresh token'' (Revoke io1 s ?h))
                       (c_UserID claims) (HashToken lib (tp_RefreshToken pair))
                       (io_now io1 + cfg_RefreshTokenDuration cfg) None None None))"
    by blast
  let ?s0 = "logged_only ''failed to revoke old refresh token'' (Revoke io1 s ?h)"
  have rows0: "refresh_tokens ?s0 =
          map (\<lambda>r. if rt_TokenHash r = ?h then revoke_row (io_now io1) r else r) (refresh_tokens s)"
    using assms(2) by (simp add: Revoke_def)
  from g have "stored \<in> set (refresh_tokens s)" and "rt_TokenHash stored = ?h"
    using GetByHash_Inr by blast+
  then have "list_ex (\<lambda>r. rt_TokenHash r = ?h) (refresh_tokens s)"
    by (auto simp: list_ex_iff)
  then have present: "list_ex (\<lambda>r. rt_TokenHash r = ?h) (refresh_tokens ?s0)"
    unfolding rows0 by (subst list_ex_map_same) (simp_all add: revoke_row_def)
  have rev0: "rt_Revoked r" if "r \<in> set (refresh_tokens ?s0)" and "rt_TokenHash r = ?h" for r
    using that unfolding rows0 by (auto simp: revoke_row_def split: if_splits)
  have rev1: "rt_Revoked r" if "r \<in> set (refresh_tokens s1)" and "rt_TokenHash r = ?h" for r
  proof -
    from Create_rows [of io1 ?s0 "c_UserID claims" "HashToken lib (tp_RefreshToken pair)"
           "io_now io1 + cfg_RefreshTokenDuration cfg" None None None]
    consider "refresh_tokens s1 = refresh_tokens ?s0"
      | row where "\<not> list_ex (\<lambda>r. rt_TokenHash r = HashToken lib (tp_RefreshToken pair)) (refresh_tokens ?s0)"
          and "rt_TokenHash row = HashToken lib (tp_RefreshToken pair)"
          and "refresh_tokens s1 = refresh_tokens ?s0 @ [row]"
      unfolding rows1 by blast
    then show ?thesis
    proof cases
      case 1
      with that rev0 show ?thesis by simp
    next
      case 2
      from 2(1) present have "HashToken lib (tp_RefreshToken pair) \<noteq> ?h"
        by auto
      with 2(2,3) that rev0 show ?thesis
        by auto
    qed
  qed
  from v have p: "jwt_ParseSigned lib (cfg_PublicKey cfg) t = Some claims"
    and again: "\<And>now'. verifyToken cfg lib now' t TokenTypeRefresh =
               (if (case c_ExpiresAt claims of None \<Rightarrow> False | Some exp \<Rightarrow> exp \<le> now')
                then Err ErrTokenExpired
                else if (case c_NotBefore claims of None \<Rightarrow> False | Some nbf \<Rightarrow> now' < nbf)
                then Err ErrInvalidToken else Ok claims)"
    using verifyToken_Ok unfolding VerifyRefreshToken_def by blast+
  have "fst (RefreshTokens cfg lib io2 t s1)
          = Err (if (case c_ExpiresAt claims of None \<Rightarrow> False | Some exp \<Rightarrow> exp \<le> io_now io2)
                 then ErrTokenExpired else ErrInvalidToken)"
  proof (cases "GetByHash io2 s1 ?h")
    case (Inl e)
    then show ?thesis
      by (simp add: RefreshTokens_def VerifyRefreshToken_def again)
  next
    case (Inr r)
    with rev1 GetByHash_Inr have "rt_Revoked r"
      by blast
    with Inr show ?thesis
      by (simp add: RefreshTokens_def VerifyRefreshToken_def again)
  qed
  with p show ?thesis
    by blast
qed


theorem C2_rotation_single_use_witness:
  "fst (RefreshTokens LoadConfig_default toy_Lib io_ok ''tokB'' state1) = Ok pairCD
   \<and> fst (RefreshTokens LoadConfig_default toy_Lib io_ok ''tokB''
            (snd (RefreshTokens LoadConfig_default toy_Lib io_ok ''tokB'' state1)))
     = Err ErrInvalidToken"
proof -
  let ?s1 = "state1\<lparr>refresh_tokens := [rowA, revoke_row 1000000000000 rowB, rowD]\<rparr>"
  have nf: "\<not> io_fails io_ok Call_Revoke"
    by simp
  from C2_rotation_single_use [OF refresh_tokB_ok nf, of io_ok] obtain claims where
    p: "jwt_ParseSigned toy_Lib (cfg_PublicKey LoadConfig_default) ''tokB'' = Some claims"
    and r: "fst (RefreshTokens LoadConfig_default toy_Lib io_ok ''tokB'' ?s1)
              = Err (if (case c_ExpiresAt claims of None \<Rightarrow> False | Some exp \<Rightarrow> exp \<le> io_now io_ok)
                     then ErrTokenExpired else ErrInvalidToken)"
    by blast
  from p have "claims = claimsB"
    by (simp add: toy_Lib_def toy_ParseSigned_def LoadConfig_default_def)
  with r have "fst (RefreshTokens LoadConfig_default toy_Lib io_ok ''tokB'' ?s1) = Err ErrInvalidToken"
    by (simp add: claims_defs)
  then show ?thesis
    by (simp add: refresh_tokB_ok)
qed

text \<open>
  As stated the claim fails in two ways. The error of \<^verbatim>\<open>Revoke\<close> is only logged: when
  that call fails the first refresh still succeeds, the row stays unrevoked and the
  second refresh with the same token succeeds as well. And a second call made once the
  token has expired fails with \<^verbatim>\<open>ErrTokenExpired\<close>, not with \<^verbatim>\<open>ErrInvalidToken\<close>.
\<close>

theorem C2_counterexample:
  "fst (RefreshTokens LoadConfig_default toy_Lib (io_failing Call_Revoke) ''tokB'' state1)
     = Ok pairCD
   \<and> fst (RefreshTokens LoadConfig_default toy_Lib io_ok ''tokB''
            (snd (RefreshTokens LoadConfig_default toy_Lib (io_failing Call_Revoke) ''tokB''
                    state1)))
     = Ok pairCD
   \<and> fst (RefreshTokens LoadConfig_default toy_Lib io_ok ''tokB'' state1) = Ok pairCD
   \<and> fst (RefreshTokens LoadConfig_default toy_Lib (io_at 604800000000000) ''tokB''
            (snd (RefreshTokens LoadConfig_default toy_Lib io_ok ''tokB'' state1)))
     = Err ErrTokenExpired"
proof -
  have again: "fst (RefreshTokens LoadConfig_default toy_Lib io_ok ''tokB''
                 (state1\<lparr>refresh_tokens := [rowA, rowB, rowD],
                          logged := [(Error, ''failed to revoke old refresh token'')]\<rparr>))
               = Ok pairCD"
    by (simp add: RefreshTokens_def verify_tokB hash_tok generate_claimsB Let_def pairCD_def
          GetByHash_def rowA_def rowB_def rowD_def Revoke_def logged_only_def
          split: prod.splits sum.splits)
  have late: "fst (RefreshTokens LoadConfig_default toy_Lib (io_at 604800000000000) ''tokB'' s)
               = Err ErrTokenExpired" for s
    by (simp add: RefreshTokens_def toy_verify_defs io_at_def io_ok_def)
  show ?thesis
    by (simp add: refresh_tokB_Revoke_fails refresh_tokB_ok again late)
qed

subsection \<open>C3: the account is locked at the threshold of failed logins\<close>

text \<open>
  C3, as amended. Take an account that is active or pending verification, has no
  \<^verbatim>\<open>locked_until\<close> and a failed-attempt counter of 0, and a threshold
  \<^verbatim>\<open>MaxFailedAttempts\<close> of N, between 1 and 2147483647. Make N consecutive
  \<^verbatim>\<open>Login\<close> calls for its email whose password does not verify, in each of which the
  store's \<^verbatim>\<open>GetByEmail\<close>, \<^verbatim>\<open>IncrementFailedLoginAttempts\<close> and \<^verbatim>\<open>LockAccount\<close>
  calls succeed. Then every one of them fails with \<^verbatim>\<open>ErrInvalidCredentials\<close>, the
  account's \<^verbatim>\<open>locked_until\<close> is the time of the N-th attempt plus
  \<^verbatim>\<open>LockoutDuration\<close>, and before that time every \<^verbatim>\<open>Login\<close> whose lookup succeeds,
  whatever its password, fails with \<^verbatim>\<open>ErrAccountLocked\<close> and changes nothing.
\<close>

theorem C3_lockout_after_threshold:
  assumes "find (\<lambda>u. u_Email u = email) (users s) = Some user"
    and "distinct (map u_ID (users s))"
    and "u_FailedLoginAttempts user = 0"
    and "u_LockedUntil user = None"
    and "u_Status user = UserStatusActive \<or> u_Status user = UserStatusPendingVerification"
    and "1 \<le> cfg_MaxFailedAttempts cfg"
    and "cfg_MaxFailedAttempts cfg \<le> 2147483647"
    and "int (length attempts) = cfg_MaxFailedAttempts cfg"
    and "\<forall>(io, password, ip, ua) \<in> set attempts.
           \<not> io_fails io Call_GetByEmail
           \<and> \<not> io_fails io Call_IncrementFailedLoginAttempts
           \<and> \<not> io_fails io Call_LockAccount
           \<and> (Verify lib password (u_PasswordHash user) = Ok False
              \<or> (\<exists>e. Verify lib password (u_PasswordHash user) = Err e))"
    and "Login_attempts cfg lib email attempts s = (rs, s')"
  shows "list_all (\<lambda>r. r = Err ErrInvalidCredentials) rs
         \<and> (\<exists>user'. find (\<lambda>u. u_Email u = email) (users s') = Some user'
               \<and> u_LockedUntil user'
                   = Some (io_now (fst (last attempts)) + cfg_LockoutDuration cfg))
         \<and> (\<forall>io password ip ua.
               \<not> io_fails io Call_GetByEmail
               \<and> io_now io < io_now (fst (last attempts)) + cfg_LockoutDuration cfg
               \<longrightarrow> Login cfg lib io email password ip ua s' = (Err ErrAccountLocked, s'))"
proof -
  from assms(6,8) have "attempts \<noteq> []"
    by auto
  then obtain front a where split: "attempts = front @ [a]"
    by (metis append_butlast_last_id)
  obtain io password ip ua where a: "a = (io, password, ip, ua)"
    by (cases a) auto
  obtain rs0 s0 where front: "Login_attempts cfg lib email front s = (rs0, s0)"
    by (cases "Login_attempts cfg lib email front s") blast
  obtain r1 s1 where last: "Login cfg lib io email password ip ua s0 = (r1, s1)"
    by (cases "Login cfg lib io email password ip ua s0") blast
  from assms(10) have rs: "rs = rs0 @ [r1]" and s': "s' = s1"
    unfolding split a Login_attempts_append front using last by simp_all
  have len: "u_FailedLoginAttempts user + int (length front) < cfg_MaxFailedAttempts cfg"
    using assms(3,8) split by simp
  have okf: "\<forall>(io, password, ip, ua) \<in> set front.
           \<not> io_fails io Call_GetByEmail
           \<and> \<not> io_fails io Call_IncrementFailedLoginAttempts
           \<and> \<not> io_fails io Call_LockAccount
           \<and> (Verify lib password (u_PasswordHash user) = Ok False
              \<or> (\<exists>e. Verify lib password (u_PasswordHash user) = Err e))"
    using assms(9) split by simp
  have c0: "0 \<le> u_FailedLoginAttempts user"
    using assms(3) by simp
  from Login_attempts_below_threshold [OF assms(1,2,4,5) c0 len assms(7) okf front]
  obtain user0 where all0: "list_all (\<lambda>r. r = Err ErrInvalidCredentials) rs0"
    and f0: "find (\<lambda>u. u_Email u = email) (users s0) = Some user0"
    and d0: "distinct (map u_ID (users s0))"
    and k0: "u_FailedLoginAttempts user0 = u_FailedLoginAttempts user + int (length front)"
    and l0: "u_LockedUntil user0 = None"
    and p0: "u_PasswordHash user0 = u_PasswordHash user"
    and st0: "u_Status user0 = u_Status user"
    by blast
  from assms(9) split a have ok:
    "\<not> io_fails io Call_GetByEmail" "\<not> io_fails io Call_IncrementFailedLoginAttempts"
    "\<not> io_fails io Call_LockAccount"
    "Verify lib password (u_PasswordHash user) = Ok False
     \<or> (\<exists>e. Verify lib password (u_PasswordHash user) = Err e)"
    by auto
  have nl: "\<not> IsLocked (io_now io) user0"
    using l0 by (simp add: IsLocked_def)
  have st: "u_Status user0 = UserStatusActive \<or> u_Status user0 = UserStatusPendingVerification"
    using st0 assms(5) by simp
  have v: "Verify lib password (u_PasswordHash user0) = Ok False
           \<or> (\<exists>e. Verify lib password (u_PasswordHash user0) = Err e)"
    using ok(4) p0 by simp
  have k: "u_FailedLoginAttempts user0 + 1 = cfg_MaxFailedAttempts cfg"
    using k0 assms(3,8) split by simp
  have kb: "0 \<le> u_FailedLoginAttempts user0" "u_FailedLoginAttempts user0 < 2147483647"
    using k0 assms(3) k assms(7) by simp_all
  from Login_wrong_step [OF f0 d0 nl st v ok(1,2,3) kb assms(6,7), of ip ua] last k
  obtain user1 where r1: "r1 = Err ErrInvalidCredentials"
    and f1: "find (\<lambda>u. u_Email u = email) (users s1) = Some user1"
    and l1: "u_LockedUntil user1 = Some (io_now io + cfg_LockoutDuration cfg)"
    by auto
  have lastio: "fst (last attempts) = io"
    by (simp add: split a)
  have locked: "Login cfg lib io' email password' ip' ua' s1 = (Err ErrAccountLocked, s1)"
    if "\<not> io_fails io' Call_GetByEmail" and "io_now io' < io_now io + cfg_LockoutDuration cfg"
    for io' password' ip' ua'
    using that f1 l1 by (simp add: Login_def GetByEmail_def IsLocked_def)
  from all0 r1 rs have "list_all (\<lambda>r. r = Err ErrInvalidCredentials) rs"
    by simp
  with f1 l1 locked show ?thesis
    unfolding s' lastio by blast
qed


theorem C3_lockout_after_threshold_witness:
  "fst (Login_attempts LoadConfig_default toy_Lib ''a@x.com''
          (five_wrong (io_at 1200000000000)) state0)
     = [Err ErrInvalidCredentials, Err ErrInvalidCredentials, Err ErrInvalidCredentials,
        Err ErrInvalidCredentials, Err ErrInvalidCredentials]
   \<and> map u_LockedUntil
       (users (snd (Login_attempts LoadConfig_default toy_Lib ''a@x.com''
                      (five_wrong (io_at 1200000000000)) state0)))
     = [Some 2100000000000]
   \<and> fst (Login LoadConfig_default toy_Lib (io_at 2000000000000) ''a@x.com'' ''Passw0rd!'' [] []
            (snd (Login_attempts LoadConfig_default toy_Lib ''a@x.com''
                    (five_wrong (io_at 1200000000000)) state0)))
     = Err ErrAccountLocked"
proof -
  let ?as = "five_wrong (io_at 1200000000000)"
  obtain rs s' where run: "Login_attempts LoadConfig_default toy_Lib ''a@x.com'' ?as state0 = (rs, s')"
    by (cases "Login_attempts LoadConfig_default toy_Lib ''a@x.com'' ?as state0") blast
  have f: "find (\<lambda>u. u_Email u = ''a@x.com'') (users state0) = Some alice"
    by (simp add: state0_def alice_def)
  have d: "distinct (map u_ID (users state0))"
    by (simp add: state0_def)
  have c: "u_FailedLoginAttempts alice = 0" and l: "u_LockedUntil alice = None"
    and st: "u_Status alice = UserStatusActive \<or> u_Status alice = UserStatusPendingVerification"
    by (simp_all add: alice_def)
  have n: "1 \<le> cfg_MaxFailedAttempts LoadConfig_default"
    "cfg_MaxFailedAttempts LoadConfig_default \<le> 2147483647"
    "int (length ?as) = cfg_MaxFailedAttempts LoadConfig_default"
    by (simp_all add: LoadConfig_default_def five_wrong_def)
  have ok: "\<forall>(io, password, ip, ua) \<in> set ?as.
           \<not> io_fails io Call_GetByEmail
           \<and> \<not> io_fails io Call_IncrementFailedLoginAttempts
           \<and> \<not> io_fails io Call_LockAccount
           \<and> (Verify toy_Lib password (u_PasswordHash alice) = Ok False
              \<or> (\<exists>e. Verify toy_Lib password (u_PasswordHash alice) = Err e))"
    by (simp add: five_wrong_def alice_def verify_wrong io_at_simps)
  note c3 = C3_lockout_after_threshold [OF f d c l st n ok run]
  have lastio: "fst (last ?as) = io_at 1200000000000"
    by (simp add: five_wrong_def)
  from c3 have all: "list_all (\<lambda>r. r = Err ErrInvalidCredentials) rs"
    and locked: "\<forall>io password ip ua.
               \<not> io_fails io Call_GetByEmail
               \<and> io_now io < io_now (fst (last ?as)) + cfg_LockoutDuration LoadConfig_default
               \<longrightarrow> Login LoadConfig_default toy_Lib io ''a@x.com'' password ip ua s'
                     = (Err ErrAccountLocked, s')"
    by blast+
  have "\<not> io_fails (io_at 2000000000000) Call_GetByEmail
        \<and> io_now (io_at 2000000000000)
            < io_now (fst (last ?as)) + cfg_LockoutDuration LoadConfig_default"
    unfolding lastio by (simp add: LoadConfig_default_def io_at_simps)
  with locked have sixth: "Login LoadConfig_default toy_Lib (io_at 2000000000000) ''a@x.com''
                    ''Passw0rd!'' [] [] s' = (Err ErrAccountLocked, s')"
    by blast
  have run': "Login_attempts LoadConfig_default toy_Lib ''a@x.com'' ?as state0
             = ([Err ErrInvalidCredentials, Err ErrInvalidCredentials, Err ErrInvalidCredentials,
                 Err ErrInvalidCredentials, Err ErrInvalidCredentials],
                \<lparr>users = [alice\<lparr>u_FailedLoginAttempts := 5, u_UpdatedAt := 1200000000000,
                                 u_LockedUntil := Some (1200000000000 + 900000000000)\<rparr>],
                 refresh_tokens = [], logged = []\<rparr>)"
    by (simp add: five_wrong_run io_at_simps)
  from run run' have eqs:
    "rs = [Err ErrInvalidCredentials, Err ErrInvalidCredentials, Err ErrInvalidCredentials,
           Err ErrInvalidCredentials, Err ErrInvalidCredentials]"
    "s' = \<lparr>users = [alice\<lparr>u_FailedLoginAttempts := 5, u_UpdatedAt := 1200000000000,
                           u_LockedUntil := Some (1200000000000 + 900000000000)\<rparr>],
           refresh_tokens = [], logged = []\<rparr>"
    by simp_all
  from sixth show ?thesis
    by (simp add: run eqs)
qed

text \<open>
  As stated the claim fails when the store does. The error of \<^verbatim>\<open>LockAccount\<close> is only
  logged: under the default threshold of 5, five wrong passwords the last of which meets
  a failing \<^verbatim>\<open>LockAccount\<close> are all answered with \<^verbatim>\<open>ErrInvalidCredentials\<close>, the
  account has no \<^verbatim>\<open>locked_until\<close> afterwards, and a sixth \<^verbatim>\<open>Login\<close> with the correct
  password succeeds.
\<close>

theorem C3_counterexample:
  "cfg_MaxFailedAttempts LoadConfig_default = 5
   \<and> fst (Login_attempts LoadConfig_default toy_Lib ''a@x.com''
            (five_wrong (io_failing Call_LockAccount)) state0)
     = [Err ErrInvalidCredentials, Err ErrInvalidCredentials, Err ErrInvalidCredentials,
        Err ErrInvalidCredentials, Err ErrInvalidCredentials]
   \<and> map u_LockedUntil
       (users (snd (Login_attempts LoadConfig_default toy_Lib ''a@x.com''
                      (five_wrong (io_failing Call_LockAccount)) state0)))
     = [None]
   \<and> fst (Login LoadConfig_default toy_Lib io_ok ''a@x.com'' ''Passw0rd!'' [] []
            (snd (Login_attempts LoadConfig_default toy_Lib ''a@x.com''
                    (five_wrong (io_failing Call_LockAccount)) state0)))
     = Ok (pairCD, alice\<lparr>u_FailedLoginAttempts := 5, u_UpdatedAt := 1000000000000\<rparr>)"
proof -
  let ?s5 = "\<lparr>users = [alice\<lparr>u_FailedLoginAttempts := 5, u_UpdatedAt := 1000000000000\<rparr>],
              refresh_tokens = [], logged = [(Error, ''failed to lock account'')]\<rparr>"
  have run: "Login_attempts LoadConfig_default toy_Lib ''a@x.com''
               (five_wrong (io_failing Call_LockAccount)) state0
             = ([Err ErrInvalidCredentials, Err ErrInvalidCredentials, Err ErrInvalidCredentials,
                 Err ErrInvalidCredentials, Err ErrInvalidCredentials], ?s5)"
    by (simp add: five_wrong_run)
  have g: "GenerateTokenPair LoadConfig_default toy_Lib io_ok 1 ''a@x.com'' False
             ''user'' = Ok pairCD"
    by (simp add: generate_alice pairCD_def)
  have sixth: "fst (Login LoadConfig_default toy_Lib io_ok ''a@x.com'' ''Passw0rd!'' [] [] ?s5)
                 = Ok (pairCD, alice\<lparr>u_FailedLoginAttempts := 5, u_UpdatedAt := 1000000000000\<rparr>)"
    by (simp add: Login_def GetByEmail_def IsLocked_def alice_def verify_alice
          Login_accepted_def g Let_def split: prod.splits)
  show ?thesis
    unfolding run using sixth
    by (simp add: LoadConfig_default_def alice_def)
qed

end
